theory Spec2Isabelle
  imports Complex_Main "HOL-Library.Word"
begin

section \<open>Account and session management (accounts.js)\<close>

subsection \<open>Values supplied by the platform\<close>

text \<open>
  A Node.js \<open>Buffer\<close> is a sequence of bytes. \<open>crypto.pbkdf2Sync\<close> is a function of the
  Node.js runtime, not of this repository: it is a parameter of every definition that
  calls it, with the arguments in the order of the call (password, salt, iterations,
  key length, digest name).
\<close>

type_synonym buffer = "8 word list"

type_synonym pbkdf2 = "string \<Rightarrow> string \<Rightarrow> nat \<Rightarrow> nat \<Rightarrow> string \<Rightarrow> buffer"

definition hex_digit :: "nat \<Rightarrow> char" where
  "hex_digit n = ''0123456789abcdef'' ! (n mod 16)"

definition hex_byte :: "8 word \<Rightarrow> string" where
  "hex_byte b = [hex_digit (unat b div 16), hex_digit (unat b mod 16)]"

text \<open>\<open>buf.toString('hex')\<close>: two lower-case hexadecimal digits per byte.\<close>

definition toString_hex :: "buffer \<Rightarrow> string" where
  "toString_hex buf = concat (map hex_byte buf)"

text \<open>
  What one call reads from its surroundings: the clock (\<open>(new Date()).getTime()\<close>, in
  milliseconds), the bytes that \<open>crypto.randomBytes(32)\<close> returns, and the ObjectId
  that MongoDB gives to a document it inserts.
\<close>

record environment =
  getTime :: int
  randomBytes :: buffer
  objectId :: string

text \<open>
  A JavaScript string is a \<open>string\<close>, and its \<open>length\<close> the number of its characters.
  A field that holds the number \<open>0\<close> or a string (\<open>user_id\<close> in the replies) is a
  \<open>js_value\<close>.
\<close>

datatype js_value = Num int | Str string

subsection \<open>Password hashing\<close>

record hashSalt =
  salt :: string
  hash :: string

definition validPassword :: "pbkdf2 \<Rightarrow> string \<Rightarrow> string \<Rightarrow> string \<Rightarrow> bool" where
  "validPassword pbkdf2Sync password hash' salt' =
     (let hashVerify = toString_hex (pbkdf2Sync password salt' 10000 64 ''sha512'')
      in hash' = hashVerify)"

text \<open>\<open>rnd\<close> is the result of \<open>crypto.randomBytes(32)\<close>.\<close>

definition genPassword :: "pbkdf2 \<Rightarrow> buffer \<Rightarrow> string \<Rightarrow> hashSalt" where
  "genPassword pbkdf2Sync rnd password =
     (let salt' = toString_hex rnd;
          genHash = toString_hex (pbkdf2Sync password salt' 10000 64 ''sha512'')
      in \<lparr>salt = salt', hash = genHash\<rparr>)"

subsection \<open>The collections\<close>

text \<open>
  A document of Accounts/accounts, as \<open>sign_up\<close> writes it, with the \<open>_id\<close> MongoDB adds;
  a document of Accounts/sessions, as \<open>issue_session\<close> writes it (its \<open>_id\<close> is never
  read and is left out).
\<close>

record account =
  acc_id :: string
  time :: int
  username :: string
  email :: string
  acc_hash :: string
  acc_salt :: string

record session =
  sess_user_id :: string
  sess_hash :: string
  sess_salt :: string
  issue_time :: int

record database =
  accounts :: "account list"
  sessions :: "session list"

text \<open>
  Modelled from the spec: mongodb-library.js (\<open>get_data\<close>, \<open>add_data\<close>, \<open>update_docs\<close>)
  is not among the sources. The spec calls the storage "simple keyed lookups", and
  accounts.js describes the library as the reads and writes of the collections. A
  collection is the list of its documents in insertion order; a query \<open>{field: value}\<close>
  is the predicate "the field equals the value"; every call of \<open>get_data\<close> and
  \<open>add_data\<close> succeeds, as they are given the names of a database and a collection that
  exist. \<open>get_data\<close> returns the matching documents in stored order.
\<close>

definition get_data :: "('d \<Rightarrow> bool) \<Rightarrow> 'd list \<Rightarrow> 'd list" where
  "get_data query collection = filter query collection"

text \<open>
  Modelled from the spec: \<open>add_data\<close> of the absent mongodb-library.js inserts one
  document at the end of the collection.
\<close>

definition add_data :: "'d \<Rightarrow> 'd list \<Rightarrow> 'd list" where
  "add_data doc collection = collection @ [doc]"

text \<open>
  Modelled from the spec: \<open>update_docs\<close> of the absent mongodb-library.js, on which the
  spec has no words. Its parameters are taken from the sibling functions of the library:
  \<open>get_data\<close> and \<open>add_data\<close> are always called with the name of the database and the
  name of the collection after their first argument, so \<open>update_docs\<close> takes the filter,
  the update, and the two names, and forwards the names to the driver. An argument that
  the caller leaves out is \<open>undefined\<close> (\<open>None\<close>); for a collection name that is not
  a string the driver throws. With the names of Accounts/sessions the \<open>$set\<close> is applied
  to every matching session; another collection is none of this model's.
\<close>

datatype mongo_error = MongoError

definition update_docs ::
  "(session \<Rightarrow> bool) \<Rightarrow> (session \<Rightarrow> session) \<Rightarrow> string option \<Rightarrow> string option
     \<Rightarrow> database \<Rightarrow> mongo_error + database" where
  "update_docs query upd database' collection db =
     (case collection of
        None \<Rightarrow> Inl MongoError
      | Some c \<Rightarrow>
          if database' = Some ''Accounts'' \<and> c = ''sessions''
          then Inr (db\<lparr>sessions := map (\<lambda>d. if query d then upd d else d) (sessions db)\<rparr>)
          else Inr db)"

subsection \<open>Signing up and logging in\<close>

definition username_exists :: "database \<Rightarrow> string \<Rightarrow> bool" where
  "username_exists db username' =
     (length (get_data (\<lambda>a. username a = username') (accounts db)) > 0)"

definition email_exists :: "database \<Rightarrow> string \<Rightarrow> bool" where
  "email_exists db email' =
     (length (get_data (\<lambda>a. email a = email') (accounts db)) > 0)"

definition valid_user_pass_combo :: "string \<Rightarrow> string \<Rightarrow> bool" where
  "valid_user_pass_combo username' password \<longleftrightarrow> length username' > 5 \<and> length password > 5"

record reply =
  info :: string
  user_id :: js_value

record sign_up_reply = reply +
  account_created :: bool

record login_reply = reply +
  loggedIn :: bool

record verify_reply = reply +
  valid :: bool

text \<open>\<open>sign_up\<close> returns its reply and the database it leaves behind.\<close>

definition sign_up ::
  "pbkdf2 \<Rightarrow> environment \<Rightarrow> database \<Rightarrow> string \<Rightarrow> string \<Rightarrow> string
     \<Rightarrow> sign_up_reply \<times> database" where
  "sign_up pbkdf2Sync env db username' password email' =
     (let (message, createAccount) =
            (if username_exists db username' then (''USERNAME ALREADY EXISTS'', False)
             else if \<not> valid_user_pass_combo username' password
               then (''BAD USERNAME PASSWORD'', False)
             else if email_exists db email' then (''EMAIL TAKEN'', False)
             else (''CREATE ACCOUNT FAILED'', True))
      in if createAccount then
           (let hashSalt = genPassword pbkdf2Sync (randomBytes env) password;
                saveMe = \<lparr>acc_id = objectId env, time = getTime env, username = username',
                          email = email', acc_hash = hash hashSalt, acc_salt = salt hashSalt\<rparr>;
                db' = db\<lparr>accounts := add_data saveMe (accounts db)\<rparr>
            in (\<lparr>info = ''ACCOUNT CREATED'', user_id = Str (objectId env),
                 account_created = createAccount\<rparr>, db'))
         else (\<lparr>info = message, user_id = Num 0, account_created = createAccount\<rparr>, db))"

definition login :: "pbkdf2 \<Rightarrow> database \<Rightarrow> string \<Rightarrow> string \<Rightarrow> login_reply" where
  "login pbkdf2Sync db username' password =
     (case get_data (\<lambda>a. username a = username') (accounts db) of
        [] \<Rightarrow> \<lparr>info = ''ACCOUNT DOES NOT EXIST'', user_id = Num 0, loggedIn = False\<rparr>
      | a # _ \<Rightarrow>
          if \<not> validPassword pbkdf2Sync password (acc_hash a) (acc_salt a)
          then \<lparr>info = ''INCORRECT PASSWORD'', user_id = Num 0, loggedIn = False\<rparr>
          else \<lparr>info = ''LOGIN SUCCESSFUL'', user_id = Str (acc_id a), loggedIn = True\<rparr>)"

subsection \<open>Sessions\<close>

text \<open>
  \<open>sessions[0]\<close> of an empty array is \<open>undefined\<close>: \<open>issue_session\<close> returns it as it is
  (\<open>None\<close>), \<open>verify_session\<close> reads a field of it, which throws inside the inner
  \<open>try\<close> and leaves the initial "INVALID" reply.

  \<open>issue_session\<close> calls \<open>update_docs\<close> with the filter and the update only, and
  \<open>add_data\<close> with the names "Accounts" and "sessions". Its body is one \<open>try\<close> whose
  \<open>catch\<close> is empty: when a call throws, nothing more is done and the function returns
  \<open>undefined\<close>.
\<close>

definition issue_session ::
  "pbkdf2 \<Rightarrow> environment \<Rightarrow> database \<Rightarrow> string \<Rightarrow> session option \<times> database" where
  "issue_session pbkdf2Sync env db uid =
     (let matching_sessions = get_data (\<lambda>s. sess_user_id s = uid) (sessions db);
          written =
            (if length matching_sessions \<noteq> 0
             then update_docs (\<lambda>s. sess_user_id s = uid)
                    (\<lambda>s. s\<lparr>issue_time := getTime env\<rparr>) None None db
             else
               (let hashSalt = genPassword pbkdf2Sync (randomBytes env) uid;
                    new_doc = \<lparr>sess_user_id = uid, sess_hash = hash hashSalt,
                               sess_salt = salt hashSalt, issue_time = getTime env\<rparr>
                in Inr (db\<lparr>sessions := add_data new_doc (sessions db)\<rparr>)))
      in case written of
           Inl error \<Rightarrow> (None, db)
         | Inr db' \<Rightarrow>
             (case get_data (\<lambda>s. sess_user_id s = uid) (sessions db') of
                [] \<Rightarrow> None
              | s # _ \<Rightarrow> Some s,
              db'))"

text \<open>
  The age of the session in days is a quotient of JavaScript numbers; it is taken here
  over the rationals.
\<close>

definition verify_session :: "pbkdf2 \<Rightarrow> int \<Rightarrow> database \<Rightarrow> string \<Rightarrow> verify_reply" where
  "verify_session pbkdf2Sync now db hash' =
     (case get_data (\<lambda>s. sess_hash s = hash') (sessions db) of
        [] \<Rightarrow> \<lparr>info = ''INVALID'', user_id = Num 0, valid = False\<rparr>
      | my_session # _ \<Rightarrow>
          if (of_int (now - issue_time my_session) :: rat) / 1000 / 60 / 60 / 24 > 1
          then \<lparr>info = ''EXPIRED'', user_id = Num 0, valid = False\<rparr>
          else if validPassword pbkdf2Sync (sess_user_id my_session) hash' (sess_salt my_session)
          then \<lparr>info = ''VALID'', user_id = Str (sess_user_id my_session), valid = True\<rparr>
          else \<lparr>info = ''INVALID'', user_id = Num 0, valid = False\<rparr>)"

section \<open>The sign-up page (signup.js)\<close>

text \<open>
  The click handler of the create button acts on the page and on the network. Its run is
  the list of what it does, in order: setting the text of the message element, and
  sending a request with \<open>fetch\<close>.
\<close>

datatype signup_body =
  SignupBody (body_username: string) (body_password: string) (body_email: string)

record request =
  route :: string
  http_method :: string
  body :: "signup_body option"

datatype effect = SetMessage string | Fetch request

text \<open>\<open>makeRequest\<close> up to the call of \<open>fetch\<close>: a body makes the request a POST.\<close>

definition makeRequest :: "string \<Rightarrow> signup_body option \<Rightarrow> request" where
  "makeRequest route' body' =
     (let options = \<lparr>route = route', http_method = ''GET'', body = None\<rparr>
      in if body' \<noteq> None then options\<lparr>http_method := ''POST'', body := body'\<rparr> else options)"

text \<open>The chain of checks at the start of the handler, and the message each one sets.\<close>

definition client_check :: "string \<Rightarrow> string \<Rightarrow> string \<Rightarrow> string \<Rightarrow> string" where
  "client_check username' password confirm email' =
     (if username' = [] \<or> password = [] \<or> confirm = [] \<or> email' = []
        then ''All fields must be filled.''
      else if password \<noteq> confirm then ''The passwords do not match.''
      else if \<not> (CHR ''.'' \<in> set email') \<or> \<not> (CHR ''@'' \<in> set email')
        then ''Please provide a valid email.''
      else if length username' < 5 \<or> length password < 6 then ''Username > 5, Password > 6.''
      else ''Attempting to create account...'')"

text \<open>
  \<open>createResponse\<close> is the reply that the awaited request resolves to; \<open>None\<close> when the
  request fails or never resolves, and the handler then stops at the \<open>await\<close>.
\<close>

definition click_handler ::
  "string \<Rightarrow> string \<Rightarrow> string \<Rightarrow> string \<Rightarrow> sign_up_reply option \<Rightarrow> effect list" where
  "click_handler username' password confirm email' createResponse =
     [SetMessage (client_check username' password confirm email'),
      Fetch (makeRequest ''/sign-up'' (Some (SignupBody username' password email')))]
     @ (case createResponse of
          None \<Rightarrow> []
        | Some r \<Rightarrow>
            if \<not> account_created r then [SetMessage (''An error occurred: '' @ info r)]
            else [SetMessage ''Your account has been created!''])"

text \<open>What the message element shows after a run: the text set last.\<close>

fun displayed :: "effect list \<Rightarrow> string option" where
  "displayed [] = None"
| "displayed (SetMessage m # es) = (case displayed es of None \<Rightarrow> Some m | Some m' \<Rightarrow> Some m')"
| "displayed (Fetch r # es) = displayed es"

text \<open>The requests of a run, in the order they are sent.\<close>

fun requests :: "effect list \<Rightarrow> request list" where
  "requests [] = []"
| "requests (SetMessage m # es) = requests es"
| "requests (Fetch r # es) = r # requests es"

section \<open>The schedule builder (ScheduleBuilder.js)\<close>

subsection \<open>The page and the class repository\<close>

text \<open>
  A class object of the repository, with the fields the builder reads; a button of the
  builder; a cell of the entry row (its \<open>span\<close>, which is its first child, and its
  buttons in document order).
\<close>

record clas =
  NAME :: string
  DIVISION :: string
  NUMBER :: string

record button =
  button_text :: string
  button_id :: string
  acr :: string
  name :: string

record td =
  td_id :: string
  span_text :: string
  buttons :: "button list"

text \<open>
  \<open>update_semesters\<close> is an \<open>async\<close> function: a call stops at each
  \<open>await ClassRepo.get_class(c.acr)\<close> and goes on when the lookup resolves. No caller
  awaits it, so whatever handler runs in between works on the same static fields. A call
  that is stopped is a \<open>frame\<close>: the cells of its local array it has still to visit,
  the \<open>sem_arr\<close> of the cell it is in, the class its pending lookup resolves to, and the
  buttons of that cell it has still to look up. A frame keeps the cells as the call
  collected them, also those of a row that \<open>fill_entries\<close> has replaced since; the model
  follows the source as long as no button is added to or moved between the cells of a
  frame while its call is stopped.
\<close>

record frame =
  rest :: "td list"
  sem_arr :: "clas list"
  awaited :: clas
  later :: "button list"

text \<open>
  The static fields of \<open>ScheduleBuilder\<close> with the two table rows they point to (the
  header row as the texts of its \<open>th\<close> cells, the entry row as its \<open>td\<close> cells), and
  the calls of \<open>update_semesters\<close> that are stopped at an \<open>await\<close>, oldest first.
\<close>

record ScheduleBuilder =
  columns :: int
  builderHeader :: "string list"
  builderRows :: "td list"
  semesters :: "clas list list"
  suspended :: "frame list"

text \<open>
  \<open>ClassRepo\<close> is not among the sources and is a parameter: \<open>ready k\<close> is the value of
  \<open>ClassRepo.ready\<close> at the \<open>k\<close>-th test of the waiting loop, \<open>selected\<close> the classes
  selected when the loop ends, \<open>get_class\<close> the class that the awaited lookup of an
  acronym resolves to.
\<close>

record ClassRepo =
  ready :: "nat \<Rightarrow> bool"
  selected :: "clas list"
  get_class :: "string \<Rightarrow> clas"

datatype js_error = TypeError

datatype promise = Fulfilled | Rejected js_error | Pending

subsection \<open>Numbers as text\<close>

fun show_nat :: "nat \<Rightarrow> string" where
  "show_nat n =
     (if n < 10 then [''0123456789'' ! n]
      else show_nat (n div 10) @ [''0123456789'' ! (n mod 10)])"

declare show_nat.simps [simp del]

definition show_int :: "int \<Rightarrow> string" where
  "show_int i = (if i < 0 then ''-'' @ show_nat (nat (- i)) else show_nat (nat i))"

subsection \<open>The operations\<close>

text \<open>
  Modelled from the spec: \<open>collect_to_arr\<close> and \<open>gen_drag_button\<close> are not among the
  sources. The spec calls the builder "DOM list management": the first is taken to list
  the \<open>td\<close> cells of the entry row in document order, the second to make a button with
  the given text and id.

  \<open>add_class\<close> takes the last cell of the entry row; with no cell, reading
  \<open>childNodes\<close> of \<open>undefined\<close> throws before anything is changed.
\<close>

definition add_class :: "clas \<Rightarrow> ScheduleBuilder \<Rightarrow> js_error + ScheduleBuilder" where
  "add_class c s =
     (let semesters' = builderRows s
      in if semesters' = [] then Inl TypeError
         else
           (let button_area = last semesters';
                new_button = \<lparr>button_text = NAME c,
                              button_id = ''builder'' @ DIVISION c @ ''-'' @ NUMBER c,
                              acr = DIVISION c @ ''-'' @ NUMBER c, name = NAME c\<rparr>;
                button_area' = button_area\<lparr>span_text := [],
                                 buttons := buttons button_area @ [new_button]\<rparr>
            in Inr (s\<lparr>builderRows := butlast semesters' @ [button_area']\<rparr>)))"

text \<open>\<open>arr.splice(start)\<close> with one argument: what stays in the array.\<close>

definition splice_from :: "int \<Rightarrow> 'a list \<Rightarrow> 'a list" where
  "splice_from start xs =
     (let n = int (length xs);
          k = (if start < 0 then max (n + start) 0 else min start n)
      in take (nat k) xs)"

text \<open>
  The loop of \<open>update_semesters\<close> over the cells, from the cell it is about to enter up to
  the next \<open>await\<close> or to its end. A cell without buttons gets its empty \<open>sem_arr\<close>
  pushed at once; at the first button of a cell the call stops, with the lookup of that
  button pending. After the last cell the bank's array is spliced off. (The
  "Semester Update" event dispatched then has no listener in this file.)
\<close>

fun semesters_loop ::
  "ClassRepo \<Rightarrow> td list \<Rightarrow> ScheduleBuilder \<Rightarrow> frame option \<times> ScheduleBuilder" where
  "semesters_loop repo [] s =
     (None, s\<lparr>semesters := splice_from (int (length (semesters s)) - 1) (semesters s)\<rparr>)"
| "semesters_loop repo (sem # sems) s =
     (case buttons sem of
        [] \<Rightarrow> semesters_loop repo sems (s\<lparr>semesters := semesters s @ [[]]\<rparr>)
      | c # cs \<Rightarrow>
          (Some \<lparr>rest = sems, sem_arr = [], awaited = get_class repo (acr c), later = cs\<rparr>, s))"

text \<open>
  A stopped call goes on: the class is pushed to \<open>sem_arr\<close>; with another button in the
  cell the call stops again at once, otherwise \<open>sem_arr\<close> is pushed to
  \<open>ScheduleBuilder.semesters\<close>, as that field is by now, and the loop enters the next cell.
\<close>

definition resume_frame ::
  "ClassRepo \<Rightarrow> frame \<Rightarrow> ScheduleBuilder \<Rightarrow> frame option \<times> ScheduleBuilder" where
  "resume_frame repo f s =
     (let arr = sem_arr f @ [awaited f]
      in case later f of
           [] \<Rightarrow> semesters_loop repo (rest f) (s\<lparr>semesters := semesters s @ [arr]\<rparr>)
         | c # cs \<Rightarrow>
             (Some (f\<lparr>sem_arr := arr, awaited := get_class repo (acr c), later := cs\<rparr>), s))"

text \<open>
  A call of \<open>update_semesters\<close>, up to its first \<open>await\<close> or, with no button in any
  cell, to its end: \<open>semesters\<close> is set to a new empty array and the cells are
  collected; a call that stops joins the stopped calls.
\<close>

definition update_semesters :: "ClassRepo \<Rightarrow> ScheduleBuilder \<Rightarrow> ScheduleBuilder" where
  "update_semesters repo s =
     (case semesters_loop repo (builderRows s) (s\<lparr>semesters := []\<rparr>) of
        (None, s') \<Rightarrow> s'
      | (Some f, s') \<Rightarrow> s'\<lparr>suspended := suspended s' @ [f]\<rparr>)"

text \<open>The lookup of the \<open>i\<close>-th stopped call resolves, and that call goes on.\<close>

definition resume :: "ClassRepo \<Rightarrow> nat \<Rightarrow> ScheduleBuilder \<Rightarrow> ScheduleBuilder" where
  "resume repo i s =
     (if i < length (suspended s)
      then
        (case resume_frame repo (suspended s ! i) s of
           (None, s') \<Rightarrow> s'\<lparr>suspended := take i (suspended s) @ drop (Suc i) (suspended s)\<rparr>
         | (Some f, s') \<Rightarrow> s'\<lparr>suspended := (suspended s)[i := f]\<rparr>)
      else s)"

text \<open>
  A call with nothing else in between: it goes on each time it stops, until it ends.
  Each time it has one button less to look up.
\<close>

definition frame_size :: "frame \<Rightarrow> nat" where
  "frame_size f = Suc (length (later f) + sum_list (map (\<lambda>sem. length (buttons sem)) (rest f)))"

function finish :: "ClassRepo \<Rightarrow> frame option \<times> ScheduleBuilder \<Rightarrow> ScheduleBuilder" where
  "finish repo (None, s) = s"
| "finish repo (Some f, s) = finish repo (resume_frame repo f s)"
  by pat_completeness auto
termination
proof (relation "measure (\<lambda>(repo, call, s). case call of None \<Rightarrow> 0 | Some f \<Rightarrow> frame_size f)")
  show "wf (measure (\<lambda>(repo, call, s). case call of None \<Rightarrow> 0 | Some f \<Rightarrow> frame_size f))"
    by simp
next
  fix repo :: ClassRepo and f :: frame and s :: ScheduleBuilder
  have loop: "(case fst (semesters_loop repo sems s') of None \<Rightarrow> 0 | Some g \<Rightarrow> frame_size g)
      \<le> sum_list (map (\<lambda>sem. length (buttons sem)) sems)" for sems s'
    by (induction sems arbitrary: s') (auto simp: frame_size_def split: list.splits)
  have "(case fst (resume_frame repo f s) of None \<Rightarrow> 0 | Some g \<Rightarrow> frame_size g) < frame_size f"
  proof (cases "later f")
    case Nil
    with loop [of "rest f" "s\<lparr>semesters := semesters s @ [sem_arr f @ [awaited f]]\<rparr>"]
    show ?thesis
      by (simp add: resume_frame_def Let_def frame_size_def)
  next
    case (Cons c cs)
    then show ?thesis
      by (simp add: resume_frame_def Let_def frame_size_def)
  qed
  then show "((repo, resume_frame repo f s), (repo, Some f, s))
      \<in> measure (\<lambda>(repo, call, s). case call of None \<Rightarrow> 0 | Some f \<Rightarrow> frame_size f)"
    by (cases "resume_frame repo f s") simp
qed

declare finish.simps [simp del]

definition update_semesters_alone :: "ClassRepo \<Rightarrow> ScheduleBuilder \<Rightarrow> ScheduleBuilder" where
  "update_semesters_alone repo s =
     finish repo (semesters_loop repo (builderRows s) (s\<lparr>semesters := []\<rparr>))"

text \<open>The loop of \<open>update_header\<close> over \<open>i\<close>, with the header cells appended so far.\<close>

function header_loop :: "int \<Rightarrow> int \<Rightarrow> string list \<Rightarrow> string list" where
  "header_loop columns' i header =
     (if i < columns' + 2
      then header_loop columns' (i + 1)
             (header @ [if i = columns' + 1 then ''Selected Classes''
                        else ''Semester '' @ show_int i])
      else header)"
  by pat_completeness auto
termination
  by (relation "measure (\<lambda>(columns', i, header). nat (columns' + 2 - i))") auto

declare header_loop.simps [simp del]

text \<open>The first loop of \<open>fill_entries\<close>, with the cells appended so far.\<close>

function entries_loop :: "int \<Rightarrow> int \<Rightarrow> td list \<Rightarrow> td list" where
  "entries_loop columns' i rows =
     (if i < columns' + 1
      then entries_loop columns' (i + 1)
             (rows @ [\<lparr>td_id = ''builderNode'' @ show_int i,
                       span_text = ''No classes selected'', buttons = []\<rparr>])
      else rows)"
  by pat_completeness auto
termination
  by (relation "measure (\<lambda>(columns', i, rows). nat (columns' + 1 - i))") auto

declare entries_loop.simps [simp del]

text \<open>
  \<open>while (ClassRepo.ready == false) await delay(500)\<close> ends at the first test that finds
  the repository ready, and never ends when there is none.
\<close>

partial_function (option) wait_ready :: "(nat \<Rightarrow> bool) \<Rightarrow> nat \<Rightarrow> nat option" where
  "wait_ready ready' k = (if ready' k then Some k else wait_ready ready' (Suc k))"

text \<open>The loop over \<open>ClassRepo.selected\<close>; it stops at the first call that throws.\<close>

fun add_classes :: "clas list \<Rightarrow> ScheduleBuilder \<Rightarrow> js_error + ScheduleBuilder" where
  "add_classes [] s = Inr s"
| "add_classes (c # cs) s =
     (case add_class c s of Inl e \<Rightarrow> Inl e | Inr s' \<Rightarrow> add_classes cs s')"

text \<open>
  \<open>fill_entries\<close> returns how its promise ends and the builder it leaves: the entry row
  is rebuilt before the first \<open>await\<close>; the rest runs once the repository is ready. The
  call of \<open>update_semesters\<close> at its end is not awaited: \<open>fill_entries\<close> ends when that
  call stops.
\<close>

definition fill_entries :: "ClassRepo \<Rightarrow> ScheduleBuilder \<Rightarrow> promise \<times> ScheduleBuilder" where
  "fill_entries repo s =
     (let s1 = s\<lparr>builderRows := entries_loop (columns s) 0 []\<rparr>
      in case wait_ready (ready repo) 0 of
           None \<Rightarrow> (Pending, s1)
         | Some _ \<Rightarrow>
             (case add_classes (selected repo) s1 of
                Inl e \<Rightarrow> (Rejected e, s1)
              | Inr s2 \<Rightarrow> (Fulfilled, update_semesters repo s2)))"

text \<open>\<open>update_header\<close> does not await \<open>fill_entries\<close>; it leaves the builder that call leaves.\<close>

definition update_header :: "ClassRepo \<Rightarrow> int \<Rightarrow> ScheduleBuilder \<Rightarrow> ScheduleBuilder" where
  "update_header repo columns' s =
     (if columns' \<le> 0 then s
      else
        (let s1 = s\<lparr>columns := columns', builderHeader := header_loop columns' 1 []\<rparr>
         in snd (fill_entries repo s1)))"

text \<open>
  \<open>save_schedule\<close> builds the file it offers for download. \<open>JSON.stringify\<close> belongs to
  the platform and is a parameter.
\<close>

record blob =
  data :: string
  filename :: string
  type :: string

definition save_schedule :: "(clas list list \<Rightarrow> string) \<Rightarrow> ScheduleBuilder \<Rightarrow> blob" where
  "save_schedule stringify s =
     \<lparr>data = stringify (semesters s), filename = ''schedule.json'', type = ''json''\<rparr>"

text \<open>
  The shape in which \<open>initialize\<close> and \<open>update_header\<close> leave the table: at least one
  semester, one entry cell per semester and one more, the bank.
\<close>

definition builder_shape :: "ScheduleBuilder \<Rightarrow> bool" where
  "builder_shape s \<longleftrightarrow> 1 \<le> columns s \<and> int (length (builderRows s)) = columns s + 1"

section \<open>Example data\<close>

text \<open>
  Concrete values at which the theorems below are exercised. \<open>demo_pbkdf2\<close> stands in for
  PBKDF2: its digest is the bytes of the password followed by those of the salt.
\<close>

definition demo_pbkdf2 :: pbkdf2 where
  "demo_pbkdf2 password salt' iterations keylen digest =
     map (\<lambda>c. of_nat (of_char c)) (password @ salt')"

definition demo_env :: environment where
  "demo_env = \<lparr>getTime = 1000, randomBytes = replicate 32 90,
                objectId = ''61a0f3c2e4b0a1d2c3f4a5b6''\<rparr>"

definition later_env :: environment where
  "later_env = \<lparr>getTime = 5000, randomBytes = replicate 32 165,
                 objectId = ''61a0f3c2e4b0a1d2c3f4a5b7''\<rparr>"

definition empty_db :: database where
  "empty_db = \<lparr>accounts = [], sessions = []\<rparr>"

text \<open>The account and the session that the first sign-up and the first log-in leave.\<close>

definition demo_account :: account where
  "demo_account =
     \<lparr>acc_id = ''61a0f3c2e4b0a1d2c3f4a5b6'', time = 1000, username = ''alice1'',
      email = ''alice@ohlone.edu'',
      acc_hash = hash (genPassword demo_pbkdf2 (replicate 32 90) ''secret''),
      acc_salt = salt (genPassword demo_pbkdf2 (replicate 32 90) ''secret'')\<rparr>"

definition account_db :: database where
  "account_db = \<lparr>accounts = [demo_account], sessions = []\<rparr>"

definition demo_session :: session where
  "demo_session =
     \<lparr>sess_user_id = ''61a0f3c2e4b0a1d2c3f4a5b6'',
      sess_hash = hash (genPassword demo_pbkdf2 (replicate 32 90) ''61a0f3c2e4b0a1d2c3f4a5b6''),
      sess_salt = salt (genPassword demo_pbkdf2 (replicate 32 90) ''61a0f3c2e4b0a1d2c3f4a5b6''),
      issue_time = 1000\<rparr>"

definition session_db :: database where
  "session_db = \<lparr>accounts = [demo_account], sessions = [demo_session]\<rparr>"

text \<open>A session whose hash was not made from its \<open>user_id\<close>.\<close>

definition forged_db :: database where
  "forged_db =
     \<lparr>accounts = [], sessions = [demo_session\<lparr>sess_user_id := ''52b1f3c2e4b0a1d2c3f4a5b6''\<rparr>]\<rparr>"

definition demo_class :: clas where
  "demo_class = \<lparr>NAME = ''Calculus I'', DIVISION = ''MATH'', NUMBER = ''101A''\<rparr>"

definition demo_repo :: ClassRepo where
  "demo_repo = \<lparr>ready = (\<lambda>k. 2 \<le> k), selected = [demo_class], get_class = (\<lambda>a. demo_class)\<rparr>"

definition blank_builder :: ScheduleBuilder where
  "blank_builder =
     \<lparr>columns = 1, builderHeader = [], builderRows = [], semesters = [], suspended = []\<rparr>"

definition demo_builder :: ScheduleBuilder where
  "demo_builder =
     \<lparr>columns = 2,
      builderHeader = [''Semester 1'', ''Semester 2'', ''Selected Classes''],
      builderRows =
        [\<lparr>td_id = ''builderNode0'', span_text = [],
          buttons = [\<lparr>button_text = ''Calculus I'', button_id = ''builderMATH-101A'',
                      acr = ''MATH-101A'', name = ''Calculus I''\<rparr>]\<rparr>,
         \<lparr>td_id = ''builderNode1'', span_text = ''No classes selected'', buttons = []\<rparr>,
         \<lparr>td_id = ''builderNode2'', span_text = ''No classes selected'', buttons = []\<rparr>],
      semesters = [], suspended = []\<rparr>"

text \<open>A repository that is ready at the first test of the waiting loop.\<close>

definition ready_repo :: ClassRepo where
  "ready_repo = \<lparr>ready = (\<lambda>k. True), selected = [demo_class], get_class = (\<lambda>a. demo_class)\<rparr>"

text \<open>
  A run in which two calls of \<open>update_semesters\<close> overlap. A drop has put Calculus I
  into Semester 1 (\<open>demo_builder\<close>) and the call the drop handler makes is stopped at
  its lookup; a "Change Semesters" event then sets the number of semesters to 2; the
  lookup of the first call resolves, then that of the second.
\<close>

definition drop_pending :: ScheduleBuilder where
  "drop_pending = update_semesters ready_repo demo_builder"

definition header_changed :: ScheduleBuilder where
  "header_changed = update_header ready_repo 2 drop_pending"

definition first_resumed :: ScheduleBuilder where
  "first_resumed = resume ready_repo 0 header_changed"

definition both_ended :: ScheduleBuilder where
  "both_ended = resume ready_repo 0 first_resumed"

text \<open>A run in which the second call is made over the same cells as the first.\<close>

definition twice_called :: ScheduleBuilder where
  "twice_called =
     resume ready_repo 0 (resume ready_repo 0 (update_semesters ready_repo drop_pending))"

section \<open>Lookups in a collection\<close>

lemma get_data_empty_iff: "get_data q c = [] \<longleftrightarrow> (\<forall>d\<in>set c. \<not> q d)"
  by (simp add: get_data_def filter_empty_conv)

text \<open>The first document a query returns is the first stored document that matches.\<close>

lemma get_data_find: "find q c = (case get_data q c of [] \<Rightarrow> None | d # _ \<Rightarrow> Some d)"
  by (induction c) (simp_all add: get_data_def)

lemma find_get_data: "find q c = Some d \<Longrightarrow> \<exists>ds. get_data q c = d # ds"
  by (simp add: get_data_find split: list.splits)

text \<open>Where a field is a key of the collection, a document is found by its own key.\<close>

lemma find_unique:
  "distinct (map f xs) \<Longrightarrow> x \<in> set xs \<Longrightarrow> find (\<lambda>y. f y = f x) xs = Some x"
  by (induction xs) (auto simp: image_iff)

lemma find_key_iff:
  assumes "distinct (map f xs)"
  shows "(\<exists>x. find (\<lambda>y. f y = k) xs = Some x \<and> P x) \<longleftrightarrow> (\<exists>x\<in>set xs. f x = k \<and> P x)"
proof
  assume "\<exists>x. find (\<lambda>y. f y = k) xs = Some x \<and> P x"
  then obtain x where "find (\<lambda>y. f y = k) xs = Some x" "P x" by blast
  then show "\<exists>x\<in>set xs. f x = k \<and> P x"
    by (auto simp: find_Some_iff)
next
  assume "\<exists>x\<in>set xs. f x = k \<and> P x"
  then obtain x where x: "x \<in> set xs" "f x = k" "P x" by blast
  from find_unique [OF assms x(1)] x(2) have "find (\<lambda>y. f y = k) xs = Some x" by simp
  with x(3) show "\<exists>x. find (\<lambda>y. f y = k) xs = Some x \<and> P x" by blast
qed

lemma username_exists_iff: "username_exists db u \<longleftrightarrow> (\<exists>a\<in>set (accounts db). username a = u)"
  by (auto simp: username_exists_def get_data_def filter_empty_conv)

lemma email_exists_iff: "email_exists db e \<longleftrightarrow> (\<exists>a\<in>set (accounts db). email a = e)"
  by (auto simp: email_exists_def get_data_def filter_empty_conv)

section \<open>Password hashing delegates to the KDF\<close>

lemma genPassword_valid:
  "validPassword K p (hash (genPassword K rnd p)) (salt (genPassword K rnd p))"
  by (simp add: genPassword_def validPassword_def Let_def)

text \<open>
  C1. For every password \<open>p\<close> and every result of \<open>randomBytes\<close>, \<open>genPassword\<close> returns
  the salt (the random bytes in hexadecimal) and, as hash, the hexadecimal PBKDF2-SHA512
  digest of \<open>p\<close> with that salt, 10000 iterations and a 64-byte key; \<open>validPassword\<close> is
  true exactly when the digest of the given password with the given salt equals the
  given hash; a generated pair validates its own password.
\<close>

theorem genPassword_validPassword:
  "hash (genPassword K rnd p)
     = toString_hex (K p (salt (genPassword K rnd p)) 10000 64 ''sha512'')
   \<and> salt (genPassword K rnd p) = toString_hex rnd
   \<and> (validPassword K p' h s \<longleftrightarrow> toString_hex (K p' s 10000 64 ''sha512'') = h)
   \<and> validPassword K p (hash (genPassword K rnd p)) (salt (genPassword K rnd p))"
  by (auto simp: genPassword_def validPassword_def Let_def)

section \<open>Session verification\<close>

text \<open>More than one day, in milliseconds.\<close>

lemma expired_iff:
  "((of_int d :: rat) / 1000 / 60 / 60 / 24 > 1) \<longleftrightarrow> d > 86400000"
proof -
  have "((of_int d :: rat) / 1000 / 60 / 60 / 24 > 1) \<longleftrightarrow> (of_int d :: rat) > of_int 86400000"
    by (simp add: field_simps)
  also have "\<dots> \<longleftrightarrow> d > 86400000"
    by (simp only: of_int_less_iff)
  finally show ?thesis .
qed

lemma verify_session_none:
  assumes "\<forall>s\<in>set (sessions db). sess_hash s \<noteq> h"
  shows "verify_session K now db h = \<lparr>info = ''INVALID'', user_id = Num 0, valid = False\<rparr>"
proof -
  from assms have "get_data (\<lambda>s. sess_hash s = h) (sessions db) = []"
    by (simp add: get_data_empty_iff)
  then show ?thesis by (simp add: verify_session_def)
qed

lemma verify_session_found:
  assumes "find (\<lambda>s. sess_hash s = h) (sessions db) = Some s"
  shows "verify_session K now db h =
     (if now - issue_time s > 86400000
      then \<lparr>info = ''EXPIRED'', user_id = Num 0, valid = False\<rparr>
      else if validPassword K (sess_user_id s) h (sess_salt s)
      then \<lparr>info = ''VALID'', user_id = Str (sess_user_id s), valid = True\<rparr>
      else \<lparr>info = ''INVALID'', user_id = Num 0, valid = False\<rparr>)"
proof -
  from find_get_data [OF assms] obtain ss
    where "get_data (\<lambda>s. sess_hash s = h) (sessions db) = s # ss" ..
  then show ?thesis by (simp add: verify_session_def expired_iff)
qed

text \<open>
  C2. \<open>verify_session\<close> looks the session up by its hash and takes the first document the
  lookup returns. For that session: when the current time minus its \<open>issue_time\<close> is
  strictly more than 86,400,000 ms the reply is "EXPIRED", not valid; otherwise, when the
  hash validates against the session's \<open>user_id\<close> and salt, the reply is "VALID", valid,
  with the session's \<open>user_id\<close>; otherwise it is "INVALID", not valid. Where the hash is a
  key of the collection, this holds for every stored session with the given hash. When
  no session has the hash, the reply is not valid.
\<close>

theorem verify_session_cases:
  "(\<forall>s. find (\<lambda>s. sess_hash s = h) (sessions db) = Some s \<longrightarrow>
      verify_session K now db h =
       (if now - issue_time s > 86400000
        then \<lparr>info = ''EXPIRED'', user_id = Num 0, valid = False\<rparr>
        else if validPassword K (sess_user_id s) h (sess_salt s)
        then \<lparr>info = ''VALID'', user_id = Str (sess_user_id s), valid = True\<rparr>
        else \<lparr>info = ''INVALID'', user_id = Num 0, valid = False\<rparr>))
   \<and> (distinct (map sess_hash (sessions db)) \<longrightarrow>
        (\<forall>s\<in>set (sessions db). sess_hash s = h \<longrightarrow>
           verify_session K now db h =
            (if now - issue_time s > 86400000
             then \<lparr>info = ''EXPIRED'', user_id = Num 0, valid = False\<rparr>
             else if validPassword K (sess_user_id s) h (sess_salt s)
             then \<lparr>info = ''VALID'', user_id = Str (sess_user_id s), valid = True\<rparr>
             else \<lparr>info = ''INVALID'', user_id = Num 0, valid = False\<rparr>)))
   \<and> ((\<forall>s\<in>set (sessions db). sess_hash s \<noteq> h) \<longrightarrow>
        verify_session K now db h = \<lparr>info = ''INVALID'', user_id = Num 0, valid = False\<rparr>
        \<and> \<not> valid (verify_session K now db h))"
proof (intro conjI allI impI ballI)
  fix s assume "find (\<lambda>s. sess_hash s = h) (sessions db) = Some s"
  then show "verify_session K now db h =
       (if now - issue_time s > 86400000
        then \<lparr>info = ''EXPIRED'', user_id = Num 0, valid = False\<rparr>
        else if validPassword K (sess_user_id s) h (sess_salt s)
        then \<lparr>info = ''VALID'', user_id = Str (sess_user_id s), valid = True\<rparr>
        else \<lparr>info = ''INVALID'', user_id = Num 0, valid = False\<rparr>)"
    by (rule verify_session_found)
next
  fix s assume d: "distinct (map sess_hash (sessions db))"
    and s: "s \<in> set (sessions db)" "sess_hash s = h"
  from find_unique [OF d s(1)] s(2)
  have "find (\<lambda>s. sess_hash s = h) (sessions db) = Some s" by simp
  then show "verify_session K now db h =
       (if now - issue_time s > 86400000
        then \<lparr>info = ''EXPIRED'', user_id = Num 0, valid = False\<rparr>
        else if validPassword K (sess_user_id s) h (sess_salt s)
        then \<lparr>info = ''VALID'', user_id = Str (sess_user_id s), valid = True\<rparr>
        else \<lparr>info = ''INVALID'', user_id = Num 0, valid = False\<rparr>)"
    by (rule verify_session_found)
next
  assume n: "\<forall>s\<in>set (sessions db). sess_hash s \<noteq> h"
  show "verify_session K now db h = \<lparr>info = ''INVALID'', user_id = Num 0, valid = False\<rparr>"
    by (rule verify_session_none [OF n])
  show "\<not> valid (verify_session K now db h)"
    by (simp add: verify_session_none [OF n])
qed

text \<open>
  The stand-in digest starts with the bytes of the password, so passwords that differ in
  their first character have different digests.
\<close>

lemma length_hex_byte: "length (hex_byte b) = 2"
  by (simp add: hex_byte_def)

lemma demo_digest_Cons:
  "toString_hex (demo_pbkdf2 (c # p) s i k d)
     = hex_byte (of_nat (of_char c)) @ toString_hex (demo_pbkdf2 p s i k d)"
  by (simp add: toString_hex_def demo_pbkdf2_def)

lemma demo_digest_differs:
  assumes "hex_byte (of_nat (of_char a)) \<noteq> hex_byte (of_nat (of_char b))"
  shows "toString_hex (demo_pbkdf2 (a # p) s i k d) \<noteq> toString_hex (demo_pbkdf2 (b # q) s' i' k' d')"
  using assms by (simp add: demo_digest_Cons length_hex_byte)

lemma demo_session_valid:
  "validPassword demo_pbkdf2 ''61a0f3c2e4b0a1d2c3f4a5b6'' (sess_hash demo_session)
     (sess_salt demo_session)"
  by (simp add: demo_session_def genPassword_valid)

lemma demo_session_forged:
  "\<not> validPassword demo_pbkdf2 ''52b1f3c2e4b0a1d2c3f4a5b6'' (sess_hash demo_session)
     (sess_salt demo_session)"
  unfolding validPassword_def demo_session_def genPassword_def Let_def
  by (simp add: demo_digest_differs hex_byte_def hex_digit_def)

theorem verify_session_cases_witness:
  "find (\<lambda>s. sess_hash s = sess_hash demo_session) (sessions session_db) = Some demo_session
   \<and> distinct (map sess_hash (sessions session_db))
   \<and> verify_session demo_pbkdf2 86401000 session_db (sess_hash demo_session)
       = \<lparr>info = ''VALID'', user_id = Str ''61a0f3c2e4b0a1d2c3f4a5b6'', valid = True\<rparr>
   \<and> verify_session demo_pbkdf2 86401001 session_db (sess_hash demo_session)
       = \<lparr>info = ''EXPIRED'', user_id = Num 0, valid = False\<rparr>
   \<and> verify_session demo_pbkdf2 86401000 forged_db (sess_hash demo_session)
       = \<lparr>info = ''INVALID'', user_id = Num 0, valid = False\<rparr>
   \<and> \<not> valid (verify_session demo_pbkdf2 86401000 empty_db (sess_hash demo_session))"
proof -
  have t: "issue_time demo_session = 1000"
    and u: "sess_user_id demo_session = ''61a0f3c2e4b0a1d2c3f4a5b6''"
    by (simp_all add: demo_session_def)
  from verify_session_cases [of "sess_hash demo_session" session_db demo_pbkdf2 86401000]
    verify_session_cases [of "sess_hash demo_session" session_db demo_pbkdf2 86401001]
    verify_session_cases [of "sess_hash demo_session" forged_db demo_pbkdf2 86401000]
    verify_session_cases [of "sess_hash demo_session" empty_db demo_pbkdf2 86401000]
    demo_session_valid demo_session_forged
  show ?thesis
    by (simp add: session_db_def forged_db_def empty_db_def t u)
qed

section \<open>Account creation\<close>

lemma sign_up_created:
  assumes "\<not> username_exists db u" "valid_user_pass_combo u p" "\<not> email_exists db e"
  shows "sign_up K env db u p e =
    (\<lparr>info = ''ACCOUNT CREATED'', user_id = Str (objectId env), account_created = True\<rparr>,
     db\<lparr>accounts := accounts db @
        [\<lparr>acc_id = objectId env, time = getTime env, username = u, email = e,
          acc_hash = hash (genPassword K (randomBytes env) p),
          acc_salt = salt (genPassword K (randomBytes env) p)\<rparr>]\<rparr>)"
  using assms by (simp add: sign_up_def add_data_def Let_def)

lemma sign_up_rejected:
  assumes "username_exists db u \<or> \<not> valid_user_pass_combo u p \<or> email_exists db e"
  shows "sign_up K env db u p e =
    (\<lparr>info = (if username_exists db u then ''USERNAME ALREADY EXISTS''
               else if \<not> valid_user_pass_combo u p then ''BAD USERNAME PASSWORD''
               else ''EMAIL TAKEN''),
      user_id = Num 0, account_created = False\<rparr>, db)"
  using assms by (cases "username_exists db u"; cases "valid_user_pass_combo u p")
    (simp_all add: sign_up_def Let_def)

text \<open>
  C3. \<open>sign_up\<close> reports \<open>account_created\<close> exactly when no stored account has the
  username, username and password are both longer than five characters, and no stored
  account has the email. Then the info is "ACCOUNT CREATED", the \<open>user_id\<close> is the id of
  the inserted account as a string, and the accounts collection has gained that one
  document. Otherwise \<open>user_id\<close> is 0, the info names the first check that failed, and
  the database is the one before the call.
\<close>

theorem sign_up_atomic:
  assumes "sign_up K env db u p e = (r, db')"
  shows "(account_created r \<longleftrightarrow>
            (\<forall>a\<in>set (accounts db). username a \<noteq> u) \<and> 5 < length u \<and> 5 < length p
            \<and> (\<forall>a\<in>set (accounts db). email a \<noteq> e))
    \<and> (account_created r \<longrightarrow>
          info r = ''ACCOUNT CREATED'' \<and> user_id r = Str (objectId env)
          \<and> (\<exists>new. accounts db' = accounts db @ [new] \<and> acc_id new = objectId env
                \<and> username new = u \<and> email new = e)
          \<and> sessions db' = sessions db)
    \<and> (\<not> account_created r \<longrightarrow>
          user_id r = Num 0 \<and> db' = db
          \<and> info r =
              (if \<exists>a\<in>set (accounts db). username a = u then ''USERNAME ALREADY EXISTS''
               else if \<not> (5 < length u \<and> 5 < length p) then ''BAD USERNAME PASSWORD''
               else ''EMAIL TAKEN''))"
proof (cases "username_exists db u \<or> \<not> valid_user_pass_combo u p \<or> email_exists db e")
  case True
  from sign_up_rejected [OF True, of K env] assms
  have r: "r = \<lparr>info = (if username_exists db u then ''USERNAME ALREADY EXISTS''
               else if \<not> valid_user_pass_combo u p then ''BAD USERNAME PASSWORD''
               else ''EMAIL TAKEN''),
      user_id = Num 0, account_created = False\<rparr>" and db: "db' = db"
    by simp_all
  have a: "\<not> account_created r" by (simp add: r)
  have i: "info r = (if username_exists db u then ''USERNAME ALREADY EXISTS''
               else if \<not> valid_user_pass_combo u p then ''BAD USERNAME PASSWORD''
               else ''EMAIL TAKEN'')" by (simp add: r)
  have uid: "user_id r = Num 0" by (simp add: r)
  from True a i uid db show ?thesis
    unfolding username_exists_iff email_exists_iff valid_user_pass_combo_def
    by (simp only: simp_thms) blast
next
  case False
  then have ok: "\<not> username_exists db u" "valid_user_pass_combo u p" "\<not> email_exists db e"
    by simp_all
  from sign_up_created [OF ok, of K env] assms
  have r: "r = \<lparr>info = ''ACCOUNT CREATED'', user_id = Str (objectId env), account_created = True\<rparr>"
    and db: "db' = db\<lparr>accounts := accounts db @
        [\<lparr>acc_id = objectId env, time = getTime env, username = u, email = e,
          acc_hash = hash (genPassword K (randomBytes env) p),
          acc_salt = salt (genPassword K (randomBytes env) p)\<rparr>]\<rparr>"
    by simp_all
  have a: "account_created r" "info r = ''ACCOUNT CREATED''" "user_id r = Str (objectId env)"
    by (simp_all add: r)
  have s: "sessions db' = sessions db" by (simp add: db)
  have n: "\<exists>new. accounts db' = accounts db @ [new] \<and> acc_id new = objectId env
                \<and> username new = u \<and> email new = e"
    by (simp add: db)
  from ok a s n show ?thesis
    unfolding username_exists_iff email_exists_iff valid_user_pass_combo_def
    by (simp only: simp_thms) blast
qed

lemma demo_sign_up:
  "sign_up demo_pbkdf2 demo_env empty_db ''alice1'' ''secret'' ''alice@ohlone.edu''
     = (\<lparr>info = ''ACCOUNT CREATED'', user_id = Str ''61a0f3c2e4b0a1d2c3f4a5b6'',
          account_created = True\<rparr>, account_db)"
proof -
  have "\<not> username_exists empty_db ''alice1''" "\<not> email_exists empty_db ''alice@ohlone.edu''"
    "valid_user_pass_combo ''alice1'' ''secret''"
    by (simp_all add: username_exists_iff email_exists_iff empty_db_def valid_user_pass_combo_def)
  from sign_up_created [OF this(1,3,2), of demo_pbkdf2 demo_env] show ?thesis
    by (simp add: demo_env_def empty_db_def account_db_def demo_account_def)
qed

theorem sign_up_atomic_witness:
  "sign_up demo_pbkdf2 demo_env empty_db ''alice1'' ''secret'' ''alice@ohlone.edu''
     = (\<lparr>info = ''ACCOUNT CREATED'', user_id = Str ''61a0f3c2e4b0a1d2c3f4a5b6'',
          account_created = True\<rparr>, account_db)
   \<and> accounts account_db = accounts empty_db @ [demo_account]
   \<and> sign_up demo_pbkdf2 later_env account_db ''alice1'' ''hunter22'' ''al@ohlone.edu''
     = (\<lparr>info = ''USERNAME ALREADY EXISTS'', user_id = Num 0, account_created = False\<rparr>,
        account_db)
   \<and> sign_up demo_pbkdf2 later_env account_db ''bob'' ''hunter22'' ''bob@ohlone.edu''
     = (\<lparr>info = ''BAD USERNAME PASSWORD'', user_id = Num 0, account_created = False\<rparr>,
        account_db)
   \<and> sign_up demo_pbkdf2 later_env account_db ''robert'' ''hunter22'' ''alice@ohlone.edu''
     = (\<lparr>info = ''EMAIL TAKEN'', user_id = Num 0, account_created = False\<rparr>, account_db)"
proof -
  have a: "accounts account_db = [demo_account]" "accounts empty_db = []"
    "username demo_account = ''alice1''" "email demo_account = ''alice@ohlone.edu''"
    by (simp_all add: account_db_def empty_db_def demo_account_def)
  have eq: "x = (r, d) \<longleftrightarrow> fst x = r \<and> snd x = d" for x :: "sign_up_reply \<times> database" and r d
    by auto
  have r: "r = \<lparr>info = i, user_id = v, account_created = c\<rparr>
      \<longleftrightarrow> info r = i \<and> user_id r = v \<and> account_created r = c" for r :: sign_up_reply and i v c
    by auto
  from sign_up_atomic [OF surjective_pairing,
      of demo_pbkdf2 later_env account_db "''alice1''" "''hunter22''" "''al@ohlone.edu''"]
    sign_up_atomic [OF surjective_pairing,
      of demo_pbkdf2 later_env account_db "''bob''" "''hunter22''" "''bob@ohlone.edu''"]
    sign_up_atomic [OF surjective_pairing,
      of demo_pbkdf2 later_env account_db "''robert''" "''hunter22''" "''alice@ohlone.edu''"]
    sign_up_atomic [OF demo_sign_up]
  show ?thesis
    by (simp add: a eq r demo_sign_up)
qed

text \<open>
  What \<open>sign_up\<close> keeps true of the accounts collection: usernames stay distinct, and
  every stored username is longer than five characters.
\<close>

lemma sign_up_accounts:
  assumes "sign_up K env db u p e = (r, db')"
  shows "accounts db' = accounts db
    \<or> (\<exists>new. accounts db' = accounts db @ [new] \<and> username new = u \<and> 5 < length u
          \<and> (\<forall>a\<in>set (accounts db). username a \<noteq> u))"
proof (cases "username_exists db u \<or> \<not> valid_user_pass_combo u p \<or> email_exists db e")
  case True
  from sign_up_rejected [OF True, of K env] assms show ?thesis by simp
next
  case False
  then have ok: "\<not> username_exists db u" "valid_user_pass_combo u p" "\<not> email_exists db e"
    by simp_all
  from sign_up_created [OF ok, of K env] assms
  have "accounts db' = accounts db @
        [\<lparr>acc_id = objectId env, time = getTime env, username = u, email = e,
          acc_hash = hash (genPassword K (randomBytes env) p),
          acc_salt = salt (genPassword K (randomBytes env) p)\<rparr>]"
    by auto
  with ok show ?thesis
    by (simp add: username_exists_iff valid_user_pass_combo_def)
qed

lemma sign_up_distinct_usernames:
  assumes "sign_up K env db u p e = (r, db')" and "distinct (map username (accounts db))"
  shows "distinct (map username (accounts db'))"
  using sign_up_accounts [OF assms(1)]
proof (elim disjE exE conjE)
  assume "accounts db' = accounts db"
  with assms(2) show ?thesis by simp
next
  fix new
  assume new: "accounts db' = accounts db @ [new]" "username new = u"
    and fresh: "\<forall>a\<in>set (accounts db). username a \<noteq> u"
  from fresh have "u \<notin> username ` set (accounts db)" by blast
  with assms(2) new show ?thesis by simp
qed

lemma sign_up_long_usernames:
  assumes "sign_up K env db u p e = (r, db')"
    and "\<forall>a\<in>set (accounts db). 5 < length (username a)"
  shows "\<forall>a\<in>set (accounts db'). 5 < length (username a)"
  using sign_up_accounts [OF assms(1)] assms(2) by auto

section \<open>Authentication\<close>

lemma login_none:
  assumes "\<forall>a\<in>set (accounts db). username a \<noteq> u"
  shows "login K db u p = \<lparr>info = ''ACCOUNT DOES NOT EXIST'', user_id = Num 0, loggedIn = False\<rparr>"
proof -
  from assms have "get_data (\<lambda>a. username a = u) (accounts db) = []"
    by (simp add: get_data_empty_iff)
  then show ?thesis by (simp add: login_def)
qed

lemma login_found:
  assumes "find (\<lambda>a. username a = u) (accounts db) = Some a"
  shows "login K db u p =
     (if validPassword K p (acc_hash a) (acc_salt a)
      then \<lparr>info = ''LOGIN SUCCESSFUL'', user_id = Str (acc_id a), loggedIn = True\<rparr>
      else \<lparr>info = ''INCORRECT PASSWORD'', user_id = Num 0, loggedIn = False\<rparr>)"
proof -
  from find_get_data [OF assms] obtain as
    where "get_data (\<lambda>a. username a = u) (accounts db) = a # as" ..
  then show ?thesis by (simp add: login_def)
qed

lemma login_loggedIn_iff:
  "loggedIn (login K db u p) \<longleftrightarrow>
      (\<exists>a. find (\<lambda>a. username a = u) (accounts db) = Some a
           \<and> validPassword K p (acc_hash a) (acc_salt a))"
proof (cases "find (\<lambda>a. username a = u) (accounts db)")
  case None
  then have "\<forall>a\<in>set (accounts db). username a \<noteq> u"
    by (simp add: find_None_iff)
  from login_none [OF this] None show ?thesis by simp
next
  case (Some a)
  from login_found [OF Some] Some show ?thesis by simp
qed

text \<open>
  C4. \<open>login\<close> takes the first account the lookup by username returns. It reports
  \<open>loggedIn\<close> exactly when there is such an account and the password validates against
  its stored hash and salt; the reply is then "LOGIN SUCCESSFUL" with that account's
  \<open>_id\<close> as \<open>user_id\<close>. With such an account and a password that does not validate, the
  reply is "INCORRECT PASSWORD" with \<open>user_id\<close> 0; with no account of that username it is
  "ACCOUNT DOES NOT EXIST" with \<open>user_id\<close> 0. Where usernames are distinct, as \<open>sign_up\<close>
  keeps them, \<open>loggedIn\<close> holds exactly when some stored account has the username and a
  hash and salt the password validates against.
\<close>

theorem login_authenticates:
  "(loggedIn (login K db u p) \<longleftrightarrow>
      (\<exists>a. find (\<lambda>a. username a = u) (accounts db) = Some a
           \<and> validPassword K p (acc_hash a) (acc_salt a)))
   \<and> (\<forall>a. find (\<lambda>a. username a = u) (accounts db) = Some a
           \<and> validPassword K p (acc_hash a) (acc_salt a) \<longrightarrow>
         login K db u p
           = \<lparr>info = ''LOGIN SUCCESSFUL'', user_id = Str (acc_id a), loggedIn = True\<rparr>)
   \<and> (\<forall>a. find (\<lambda>a. username a = u) (accounts db) = Some a
           \<and> \<not> validPassword K p (acc_hash a) (acc_salt a) \<longrightarrow>
         login K db u p
           = \<lparr>info = ''INCORRECT PASSWORD'', user_id = Num 0, loggedIn = False\<rparr>)
   \<and> ((\<forall>a\<in>set (accounts db). username a \<noteq> u) \<longrightarrow>
         login K db u p
           = \<lparr>info = ''ACCOUNT DOES NOT EXIST'', user_id = Num 0, loggedIn = False\<rparr>)
   \<and> (distinct (map username (accounts db)) \<longrightarrow>
         (loggedIn (login K db u p) \<longleftrightarrow>
            (\<exists>a\<in>set (accounts db). username a = u
               \<and> validPassword K p (acc_hash a) (acc_salt a))))"
proof (intro conjI allI impI)
  show "loggedIn (login K db u p) \<longleftrightarrow>
      (\<exists>a. find (\<lambda>a. username a = u) (accounts db) = Some a
           \<and> validPassword K p (acc_hash a) (acc_salt a))"
    by (rule login_loggedIn_iff)
next
  fix a assume "find (\<lambda>a. username a = u) (accounts db) = Some a
           \<and> validPassword K p (acc_hash a) (acc_salt a)"
  then show "login K db u p
           = \<lparr>info = ''LOGIN SUCCESSFUL'', user_id = Str (acc_id a), loggedIn = True\<rparr>"
    by (simp add: login_found)
next
  fix a assume "find (\<lambda>a. username a = u) (accounts db) = Some a
           \<and> \<not> validPassword K p (acc_hash a) (acc_salt a)"
  then show "login K db u p
           = \<lparr>info = ''INCORRECT PASSWORD'', user_id = Num 0, loggedIn = False\<rparr>"
    by (simp add: login_found)
next
  assume "\<forall>a\<in>set (accounts db). username a \<noteq> u"
  then show "login K db u p
           = \<lparr>info = ''ACCOUNT DOES NOT EXIST'', user_id = Num 0, loggedIn = False\<rparr>"
    by (rule login_none)
next
  assume "distinct (map username (accounts db))"
  from find_key_iff [OF this] show "loggedIn (login K db u p) \<longleftrightarrow>
            (\<exists>a\<in>set (accounts db). username a = u
               \<and> validPassword K p (acc_hash a) (acc_salt a))"
    by (simp only: login_loggedIn_iff)
qed

lemma demo_account_valid:
  "validPassword demo_pbkdf2 ''secret'' (acc_hash demo_account) (acc_salt demo_account)"
  by (simp add: demo_account_def genPassword_valid)

lemma demo_account_wrong:
  "\<not> validPassword demo_pbkdf2 ''wrong!'' (acc_hash demo_account) (acc_salt demo_account)"
  unfolding validPassword_def demo_account_def genPassword_def Let_def
  by (simp add: demo_digest_differs hex_byte_def hex_digit_def)

theorem login_authenticates_witness:
  "find (\<lambda>a. username a = ''alice1'') (accounts account_db) = Some demo_account
   \<and> distinct (map username (accounts account_db))
   \<and> login demo_pbkdf2 account_db ''alice1'' ''secret''
       = \<lparr>info = ''LOGIN SUCCESSFUL'', user_id = Str ''61a0f3c2e4b0a1d2c3f4a5b6'',
          loggedIn = True\<rparr>
   \<and> login demo_pbkdf2 account_db ''alice1'' ''wrong!''
       = \<lparr>info = ''INCORRECT PASSWORD'', user_id = Num 0, loggedIn = False\<rparr>
   \<and> login demo_pbkdf2 account_db ''nobody'' ''secret''
       = \<lparr>info = ''ACCOUNT DOES NOT EXIST'', user_id = Num 0, loggedIn = False\<rparr>"
proof -
  have a: "accounts account_db = [demo_account]"
    "username demo_account = ''alice1''" "acc_id demo_account = ''61a0f3c2e4b0a1d2c3f4a5b6''"
    by (simp_all add: account_db_def demo_account_def)
  from login_authenticates [of demo_pbkdf2 account_db "''alice1''" "''secret''"]
    login_authenticates [of demo_pbkdf2 account_db "''alice1''" "''wrong!''"]
    login_authenticates [of demo_pbkdf2 account_db "''nobody''" "''secret''"]
    demo_account_valid demo_account_wrong
  show ?thesis
    by (simp add: a)
qed

section \<open>Session issuance\<close>

text \<open>
  The call of \<open>update_docs\<close> as \<open>issue_session\<close> makes it, and as the sibling calls of the
  library are made, with the names of the database and the collection.
\<close>

lemma update_docs_without_names: "update_docs q upd None None db = Inl MongoError"
  by (simp add: update_docs_def)

lemma update_docs_with_names:
  "update_docs q upd (Some ''Accounts'') (Some ''sessions'') db
     = Inr (db\<lparr>sessions := map (\<lambda>d. if q d then upd d else d) (sessions db)\<rparr>)"
  by (simp add: update_docs_def)

text \<open>
  A user without a stored session gets exactly one, whose salt is the random bytes in
  hexadecimal and whose hash is the digest of the \<open>user_id\<close> with that salt.
\<close>

lemma issue_session_new:
  assumes "\<forall>s\<in>set (sessions db). sess_user_id s \<noteq> uid"
  shows "issue_session K env db uid =
     (Some \<lparr>sess_user_id = uid,
            sess_hash = toString_hex (K uid (toString_hex (randomBytes env)) 10000 64 ''sha512''),
            sess_salt = toString_hex (randomBytes env), issue_time = getTime env\<rparr>,
      db\<lparr>sessions := sessions db @
        [\<lparr>sess_user_id = uid,
          sess_hash = toString_hex (K uid (toString_hex (randomBytes env)) 10000 64 ''sha512''),
          sess_salt = toString_hex (randomBytes env), issue_time = getTime env\<rparr>]\<rparr>)"
proof -
  from assms have e: "filter (\<lambda>s. sess_user_id s = uid) (sessions db) = []"
    by (simp add: filter_empty_conv)
  then show ?thesis
    by (simp add: issue_session_def Let_def get_data_def add_data_def genPassword_def)
qed

lemma issue_session_stored:
  assumes "\<exists>s\<in>set (sessions db). sess_user_id s = uid"
  shows "issue_session K env db uid = (None, db)"
proof -
  from assms have "get_data (\<lambda>s. sess_user_id s = uid) (sessions db) \<noteq> []"
    by (auto simp: get_data_empty_iff)
  then show ?thesis
    by (simp add: issue_session_def Let_def update_docs_without_names)
qed

text \<open>No call gives a user a second session, and none touches the accounts.\<close>

lemma issue_session_distinct:
  assumes "issue_session K env db uid = (ret, db')"
    and "distinct (map sess_user_id (sessions db))"
  shows "distinct (map sess_user_id (sessions db'))"
proof (cases "\<exists>s\<in>set (sessions db). sess_user_id s = uid")
  case True
  from issue_session_stored [OF True, of K env] assms show ?thesis by simp
next
  case False
  then have n: "\<forall>s\<in>set (sessions db). sess_user_id s \<noteq> uid" by simp
  then have "uid \<notin> sess_user_id ` set (sessions db)" by blast
  with issue_session_new [OF n, of K env] assms show ?thesis by auto
qed

lemma issue_session_accounts:
  assumes "issue_session K env db uid = (ret, db')"
  shows "accounts db' = accounts db"
proof (cases "\<exists>s\<in>set (sessions db). sess_user_id s = uid")
  case True
  from issue_session_stored [OF True, of K env] assms show ?thesis by simp
next
  case False
  then have n: "\<forall>s\<in>set (sessions db). sess_user_id s \<noteq> uid" by simp
  from issue_session_new [OF n, of K env] assms show ?thesis by auto
qed




section \<open>The schedule builder\<close>

subsection \<open>The two loops as lists\<close>

lemma header_loop_eq:
  "header_loop n i hdr =
     hdr @ map (\<lambda>j. if j = n + 1 then ''Selected Classes'' else ''Semester '' @ show_int j)
             [i..n + 1]"
proof (induction n i hdr rule: header_loop.induct)
  case (1 n i hdr)
  show ?case
  proof (cases "i < n + 2")
    case True
    then have u: "[i..n + 1] = i # [i + 1..n + 1]"
      by (simp add: upto_rec1)
    from True 1 show ?thesis
      by (subst header_loop.simps) (simp add: u)
  next
    case False
    then show ?thesis
      by (subst header_loop.simps) simp
  qed
qed

lemma header_labels:
  assumes "1 \<le> n"
  shows "map (\<lambda>j. if j = n + 1 then ''Selected Classes'' else ''Semester '' @ show_int j)
             [1..n + 1]
         = map (\<lambda>j. ''Semester '' @ show_int j) [1..n] @ [''Selected Classes'']"
proof -
  from assms have "[1..n + 1] = [1..n] @ [n + 1]"
    by (simp add: upto_rec2)
  then show ?thesis by simp
qed

lemma entries_loop_eq:
  "entries_loop n i rows =
     rows @ map (\<lambda>j. \<lparr>td_id = ''builderNode'' @ show_int j,
                       span_text = ''No classes selected'', buttons = []\<rparr>) [i..n]"
proof (induction n i rows rule: entries_loop.induct)
  case (1 n i rows)
  show ?case
  proof (cases "i < n + 1")
    case True
    then have u: "[i..n] = i # [i + 1..n]"
      by (simp add: upto_rec1)
    from True 1 show ?thesis
      by (subst entries_loop.simps) (simp add: u)
  next
    case False
    then show ?thesis
      by (subst entries_loop.simps) simp
  qed
qed

subsection \<open>What adding classes leaves alone\<close>

lemma splice_from_last: "splice_from (int (length xs) - 1) xs = butlast xs"
proof (cases "xs = []")
  case True
  then show ?thesis by (simp add: splice_from_def)
next
  case False
  then have "0 < length xs" by simp
  then have "nat (int (length xs) - 1) = length xs - 1" by arith
  with False show ?thesis
    by (simp add: splice_from_def butlast_conv_take Let_def)
qed

lemma add_class_Inl: "add_class c s = Inl e \<longleftrightarrow> builderRows s = []"
  by (cases e) (simp add: add_class_def Let_def)

lemma add_class_Inr:
  assumes "add_class c s = Inr s'"
  shows "columns s' = columns s" and "builderHeader s' = builderHeader s"
    and "semesters s' = semesters s"
    and "butlast (builderRows s') = butlast (builderRows s)"
    and "map td_id (builderRows s') = map td_id (builderRows s)"
    and "length (builderRows s') = length (builderRows s)"
proof -
  from assms have ne: "builderRows s \<noteq> []"
    by (auto simp: add_class_def Let_def split: if_splits)
  with assms obtain b where s': "s' = s\<lparr>builderRows := butlast (builderRows s) @ [b]\<rparr>"
    and b: "td_id b = td_id (last (builderRows s))"
    by (auto simp: add_class_def Let_def)
  show "columns s' = columns s" "builderHeader s' = builderHeader s"
    "semesters s' = semesters s" "butlast (builderRows s') = butlast (builderRows s)"
    by (simp_all add: s')
  have "map td_id (builderRows s') = map td_id (butlast (builderRows s)) @ [td_id (last (builderRows s))]"
    by (simp add: s' b)
  also have "\<dots> = map td_id (butlast (builderRows s) @ [last (builderRows s)])"
    by simp
  also have "\<dots> = map td_id (builderRows s)"
    using ne by simp
  finally show m: "map td_id (builderRows s') = map td_id (builderRows s)" .
  from arg_cong [OF m, of length] show "length (builderRows s') = length (builderRows s)"
    by simp
qed

lemma add_classes_Inr:
  assumes "add_classes cs s = Inr s'"
  shows "columns s' = columns s \<and> builderHeader s' = builderHeader s
    \<and> semesters s' = semesters s
    \<and> butlast (builderRows s') = butlast (builderRows s)
    \<and> map td_id (builderRows s') = map td_id (builderRows s)"
  using assms
proof (induction cs arbitrary: s)
  case Nil
  then show ?case by simp
next
  case (Cons c cs)
  from Cons.prems obtain s1 where 1: "add_class c s = Inr s1" and 2: "add_classes cs s1 = Inr s'"
    by (auto split: sum.splits)
  from Cons.IH [OF 2] add_class_Inr [OF 1] show ?case by simp
qed

lemma semesters_loop_fields:
  "columns (snd (semesters_loop repo sems s)) = columns s
   \<and> builderHeader (snd (semesters_loop repo sems s)) = builderHeader s
   \<and> builderRows (snd (semesters_loop repo sems s)) = builderRows s
   \<and> suspended (snd (semesters_loop repo sems s)) = suspended s"
  by (induction sems arbitrary: s) (simp_all split: list.splits)

lemma update_semesters_fields:
  "columns (update_semesters repo s) = columns s"
  "builderHeader (update_semesters repo s) = builderHeader s"
  "builderRows (update_semesters repo s) = builderRows s"
proof -
  obtain call s' where r: "semesters_loop repo (builderRows s) (s\<lparr>semesters := []\<rparr>) = (call, s')"
    by (cases "semesters_loop repo (builderRows s) (s\<lparr>semesters := []\<rparr>)")
  from semesters_loop_fields [of repo "builderRows s" "s\<lparr>semesters := []\<rparr>"] r
  have s': "columns s' = columns s" "builderHeader s' = builderHeader s"
    "builderRows s' = builderRows s"
    by simp_all
  show "columns (update_semesters repo s) = columns s"
    "builderHeader (update_semesters repo s) = builderHeader s"
    "builderRows (update_semesters repo s) = builderRows s"
    by (cases call; simp add: update_semesters_def r s')+
qed

text \<open>However its promise ends, \<open>fill_entries\<close> leaves the cells its first loop built.\<close>

lemma fill_entries_fields:
  "columns (snd (fill_entries repo s)) = columns s
   \<and> builderHeader (snd (fill_entries repo s)) = builderHeader s
   \<and> butlast (builderRows (snd (fill_entries repo s))) = butlast (entries_loop (columns s) 0 [])
   \<and> map td_id (builderRows (snd (fill_entries repo s)))
       = map td_id (entries_loop (columns s) 0 [])"
proof -
  let ?s1 = "s\<lparr>builderRows := entries_loop (columns s) 0 []\<rparr>"
  show ?thesis
  proof (cases "wait_ready (ready repo) 0")
    case None
    then show ?thesis by (simp add: fill_entries_def)
  next
    case (Some k)
    show ?thesis
    proof (cases "add_classes (selected repo) ?s1")
      case (Inl e)
      with Some show ?thesis by (simp add: fill_entries_def)
    next
      case (Inr s2)
      from add_classes_Inr [OF Inr] Some Inr show ?thesis
        by (simp add: fill_entries_def update_semesters_fields)
    qed
  qed
qed

text \<open>
  The wait ends as soon as the repository is ready at some test, and \<open>fill_entries\<close>
  then runs to its end whenever it has built at least one cell.
\<close>

lemma wait_ready_ends: "ready' (i + k) \<Longrightarrow> \<exists>j. wait_ready ready' i = Some j"
proof (induction k arbitrary: i)
  case 0
  then show ?case by (simp add: wait_ready.simps)
next
  case (Suc k)
  from Suc.prems have "ready' (Suc i + k)" by simp
  from Suc.IH [OF this] show ?case
    by (subst wait_ready.simps) simp
qed

lemma add_classes_succeeds:
  "builderRows s \<noteq> [] \<Longrightarrow> \<exists>s'. add_classes cs s = Inr s'"
proof (induction cs arbitrary: s)
  case Nil
  then show ?case by simp
next
  case (Cons c cs)
  from Cons.prems obtain s1 where 1: "add_class c s = Inr s1"
    by (auto simp: add_class_def Let_def)
  from add_class_Inr(6) [OF 1] Cons.prems have "builderRows s1 \<noteq> []"
    by auto
  from Cons.IH [OF this] 1 show ?case by simp
qed

lemma fill_entries_fulfilled:
  assumes "ready repo k" and "0 \<le> columns s"
  shows "fst (fill_entries repo s) = Fulfilled"
proof -
  from assms(1) wait_ready_ends [of "ready repo" 0 k] obtain j
    where w: "wait_ready (ready repo) 0 = Some j" by auto
  from assms(2) have "[0..columns s] \<noteq> []" by simp
  then have "builderRows (s\<lparr>builderRows := entries_loop (columns s) 0 []\<rparr>) \<noteq> []"
    by (simp add: entries_loop_eq)
  from add_classes_succeeds [OF this, of "selected repo"] obtain s2
    where "add_classes (selected repo) (s\<lparr>builderRows := entries_loop (columns s) 0 []\<rparr>) = Inr s2"
    by auto
  with w show ?thesis
    by (simp add: fill_entries_def)
qed

subsection \<open>The header and the entry row\<close>

lemma update_header_positive:
  assumes n: "1 \<le> n"
  shows "columns (update_header repo n s) = n"
    and "builderHeader (update_header repo n s)
          = map (\<lambda>i. ''Semester '' @ show_int i) [1..n] @ [''Selected Classes'']"
    and "map td_id (builderRows (update_header repo n s))
          = map (\<lambda>i. ''builderNode'' @ show_int i) [0..n]"
    and "butlast (builderRows (update_header repo n s))
          = map (\<lambda>i. \<lparr>td_id = ''builderNode'' @ show_int i,
                       span_text = ''No classes selected'', buttons = []\<rparr>) [0..n - 1]"
proof -
  let ?s1 = "s\<lparr>columns := n, builderHeader := header_loop n 1 []\<rparr>"
  let ?cell = "\<lambda>i. \<lparr>td_id = ''builderNode'' @ show_int i,
                       span_text = ''No classes selected'', buttons = []\<rparr>"
  from n have u: "update_header repo n s = snd (fill_entries repo ?s1)"
    by (simp add: update_header_def Let_def)
  note f = fill_entries_fields [of repo ?s1]
  from f show "columns (update_header repo n s) = n"
    by (simp add: u)
  from f have "builderHeader (update_header repo n s) = header_loop n 1 []"
    by (simp add: u)
  then show "builderHeader (update_header repo n s)
          = map (\<lambda>i. ''Semester '' @ show_int i) [1..n] @ [''Selected Classes'']"
    by (simp only: header_loop_eq header_labels [OF n] append_Nil)
  from f have "map td_id (builderRows (update_header repo n s)) = map td_id (map ?cell [0..n])"
    by (simp add: u entries_loop_eq)
  then show "map td_id (builderRows (update_header repo n s))
          = map (\<lambda>i. ''builderNode'' @ show_int i) [0..n]"
    by (simp add: comp_def)
  from n have "[0..n] = [0..n - 1] @ [n]"
    by (simp add: upto_rec2)
  then have "butlast (map ?cell [0..n]) = map ?cell [0..n - 1]"
    by (simp add: butlast_append)
  with f show "butlast (builderRows (update_header repo n s)) = map ?cell [0..n - 1]"
    by (simp add: u entries_loop_eq)
qed

lemma update_header_lengths:
  assumes n: "1 \<le> n"
  shows "int (length (builderHeader (update_header repo n s))) = n + 1"
    and "int (length (builderRows (update_header repo n s))) = n + 1"
proof -
  from n show "int (length (builderHeader (update_header repo n s))) = n + 1"
    by (simp add: update_header_positive(2) [OF n])
  from arg_cong [OF update_header_positive(3) [OF n, of repo s], of length] n
  show "int (length (builderRows (update_header repo n s))) = n + 1"
    by simp
qed

lemma update_header_shape: "1 \<le> n \<Longrightarrow> builder_shape (update_header repo n s)"
  by (simp add: builder_shape_def update_header_positive(1) update_header_lengths(2))

lemma add_class_shape: "add_class c s = Inr s' \<Longrightarrow> builder_shape s' = builder_shape s"
  by (simp add: builder_shape_def add_class_Inr)

text \<open>
  C7. For every integer \<open>n \<ge> 1\<close>, \<open>update_header n\<close> sets \<open>columns\<close> to \<open>n\<close>, rebuilds the
  header row to the \<open>n + 1\<close> cells "Semester 1", ..., "Semester n", "Selected Classes",
  and rebuilds the entry row with \<open>n + 1\<close> cells "builderNode0", ..., "builderNode" \<open>n\<close>,
  of which the \<open>n\<close> semester cells are empty ("No classes selected"); this holds however
  the wait for the class repository ends. For every \<open>n \<le> 0\<close> it returns the builder as it
  was.
\<close>

theorem update_header_cells:
  "(1 \<le> n \<longrightarrow>
      columns (update_header repo n s) = n
      \<and> builderHeader (update_header repo n s)
          = map (\<lambda>i. ''Semester '' @ show_int i) [1..n] @ [''Selected Classes'']
      \<and> int (length (builderHeader (update_header repo n s))) = n + 1
      \<and> int (length (builderRows (update_header repo n s))) = n + 1
      \<and> map td_id (builderRows (update_header repo n s))
          = map (\<lambda>i. ''builderNode'' @ show_int i) [0..n]
      \<and> butlast (builderRows (update_header repo n s))
          = map (\<lambda>i. \<lparr>td_id = ''builderNode'' @ show_int i,
                       span_text = ''No classes selected'', buttons = []\<rparr>) [0..n - 1])
   \<and> (n \<le> 0 \<longrightarrow> update_header repo n s = s)"
proof (intro conjI impI)
  assume n: "1 \<le> n"
  show "columns (update_header repo n s) = n"
    by (rule update_header_positive(1) [OF n])
  show "builderHeader (update_header repo n s)
          = map (\<lambda>i. ''Semester '' @ show_int i) [1..n] @ [''Selected Classes'']"
    by (rule update_header_positive(2) [OF n])
  show "int (length (builderHeader (update_header repo n s))) = n + 1"
    by (rule update_header_lengths(1) [OF n])
  show "int (length (builderRows (update_header repo n s))) = n + 1"
    by (rule update_header_lengths(2) [OF n])
  show "map td_id (builderRows (update_header repo n s))
          = map (\<lambda>i. ''builderNode'' @ show_int i) [0..n]"
    by (rule update_header_positive(3) [OF n])
  show "butlast (builderRows (update_header repo n s))
          = map (\<lambda>i. \<lparr>td_id = ''builderNode'' @ show_int i,
                       span_text = ''No classes selected'', buttons = []\<rparr>) [0..n - 1]"
    by (rule update_header_positive(4) [OF n])
next
  assume "n \<le> 0"
  then show "update_header repo n s = s"
    by (simp add: update_header_def)
qed

lemma show_int_digits: "show_int 0 = ''0''" "show_int 1 = ''1''" "show_int 2 = ''2''"
  by (simp_all add: show_int_def show_nat.simps)

lemma demo_update_header:
  "update_header demo_repo 2 blank_builder
     = \<lparr>columns = 2,
        builderHeader = [''Semester 1'', ''Semester 2'', ''Selected Classes''],
        builderRows =
          [\<lparr>td_id = ''builderNode0'', span_text = ''No classes selected'', buttons = []\<rparr>,
           \<lparr>td_id = ''builderNode1'', span_text = ''No classes selected'', buttons = []\<rparr>,
           \<lparr>td_id = ''builderNode2'', span_text = [],
             buttons = [\<lparr>button_text = ''Calculus I'', button_id = ''builderMATH-101A'',
                         acr = ''MATH-101A'', name = ''Calculus I''\<rparr>]\<rparr>],
        semesters = [[], []],
        suspended = [\<lparr>rest = [], sem_arr = [], awaited = demo_class, later = []\<rparr>]\<rparr>"
proof -
  let ?hdr = "[''Semester 1'', ''Semester 2'', ''Selected Classes'']"
  let ?cells = "[\<lparr>td_id = ''builderNode0'', span_text = ''No classes selected'', buttons = []\<rparr>,
       \<lparr>td_id = ''builderNode1'', span_text = ''No classes selected'', buttons = []\<rparr>,
       \<lparr>td_id = ''builderNode2'', span_text = ''No classes selected'', buttons = []\<rparr>]"
  let ?s1 = "\<lparr>columns = 2, builderHeader = ?hdr, builderRows = [], semesters = [],
        suspended = []\<rparr>"
  let ?s2 = "\<lparr>columns = 2, builderHeader = ?hdr, builderRows = ?cells, semesters = [],
        suspended = []\<rparr>"
  let ?b = "\<lparr>rest = [], sem_arr = [], awaited = demo_class, later = []\<rparr>"
  let ?s3 = "\<lparr>columns = 2, builderHeader = ?hdr,
        builderRows =
          [\<lparr>td_id = ''builderNode0'', span_text = ''No classes selected'', buttons = []\<rparr>,
           \<lparr>td_id = ''builderNode1'', span_text = ''No classes selected'', buttons = []\<rparr>,
           \<lparr>td_id = ''builderNode2'', span_text = [],
             buttons = [\<lparr>button_text = ''Calculus I'', button_id = ''builderMATH-101A'',
                         acr = ''MATH-101A'', name = ''Calculus I''\<rparr>]\<rparr>],
        semesters = [], suspended = []\<rparr>"
  have w: "wait_ready (ready demo_repo) 0 = Some 2"
    by (simp add: wait_ready.simps demo_repo_def)
  have h: "header_loop 2 1 [] = ?hdr"
    by (simp add: header_loop.simps show_int_digits)
  have e: "entries_loop 2 0 [] = ?cells"
    by (simp add: entries_loop.simps show_int_digits)
  have a: "add_classes (selected demo_repo) ?s2 = Inr ?s3"
    by (simp add: demo_repo_def demo_class_def add_class_def)
  have u: "update_semesters demo_repo ?s3 = ?s3\<lparr>semesters := [[], []], suspended := [?b]\<rparr>"
    by (simp add: update_semesters_def demo_repo_def)
  have f: "fill_entries demo_repo ?s1
      = (Fulfilled, ?s3\<lparr>semesters := [[], []], suspended := [?b]\<rparr>)"
    by (simp add: fill_entries_def w e a u)
  show ?thesis
    by (simp add: update_header_def blank_builder_def h f)
qed

theorem update_header_cells_witness:
  "update_header demo_repo 2 blank_builder
     = \<lparr>columns = 2,
        builderHeader = [''Semester 1'', ''Semester 2'', ''Selected Classes''],
        builderRows =
          [\<lparr>td_id = ''builderNode0'', span_text = ''No classes selected'', buttons = []\<rparr>,
           \<lparr>td_id = ''builderNode1'', span_text = ''No classes selected'', buttons = []\<rparr>,
           \<lparr>td_id = ''builderNode2'', span_text = [],
             buttons = [\<lparr>button_text = ''Calculus I'', button_id = ''builderMATH-101A'',
                         acr = ''MATH-101A'', name = ''Calculus I''\<rparr>]\<rparr>],
        semesters = [[], []],
        suspended = [\<lparr>rest = [], sem_arr = [], awaited = demo_class, later = []\<rparr>]\<rparr>
   \<and> columns (update_header demo_repo 2 blank_builder) = 2
   \<and> int (length (builderRows (update_header demo_repo 2 blank_builder))) = 3
   \<and> update_header demo_repo 0 demo_builder = demo_builder
   \<and> update_header demo_repo (- 4) demo_builder = demo_builder"
  using update_header_cells [of 2 demo_repo blank_builder]
    update_header_cells [of 0 demo_repo demo_builder]
    update_header_cells [of "- 4" demo_repo demo_builder] demo_update_header
  by simp

subsection \<open>The grid of semesters\<close>

text \<open>
  A call that nothing interrupts leaves what the claim describes: one array per entry
  cell but the last, in column order, each with the classes of the buttons of its cell.
\<close>

lemma finish_frame:
  "finish repo (Some f, s) =
     finish repo (semesters_loop repo (rest f)
       (s\<lparr>semesters := semesters s
           @ [sem_arr f @ awaited f # map (\<lambda>c. get_class repo (acr c)) (later f)]\<rparr>))"
proof (induction cs \<equiv> "later f" arbitrary: f)
  case Nil
  then show ?case
    by (subst finish.simps) (simp add: resume_frame_def Let_def)
next
  case (Cons c cs)
  let ?g = "f\<lparr>sem_arr := sem_arr f @ [awaited f], awaited := get_class repo (acr c), later := cs\<rparr>"
  from Cons.hyps(2) have l: "later f = c # cs" by simp
  have "finish repo (Some f, s) = finish repo (Some ?g, s)"
    by (subst finish.simps) (simp add: resume_frame_def Let_def l)
  also have "\<dots> = finish repo (semesters_loop repo (rest ?g)
       (s\<lparr>semesters := semesters s
           @ [sem_arr ?g @ awaited ?g # map (\<lambda>c. get_class repo (acr c)) (later ?g)]\<rparr>))"
    by (rule Cons.hyps(1)) simp
  finally show ?case by (simp add: l)
qed

lemma finish_semesters_loop:
  "finish repo (semesters_loop repo sems s) =
     s\<lparr>semesters := butlast (semesters s
          @ map (\<lambda>sem. map (\<lambda>c. get_class repo (acr c)) (buttons sem)) sems)\<rparr>"
proof (induction sems arbitrary: s)
  case Nil
  then show ?case
    by (simp add: finish.simps splice_from_last)
next
  case (Cons sem sems)
  show ?case
  proof (cases "buttons sem")
    case Nil
    with Cons.IH [of "s\<lparr>semesters := semesters s @ [[]]\<rparr>"] show ?thesis by simp
  next
    case (Cons c cs)
    with Cons.IH [of "s\<lparr>semesters := semesters s
        @ [get_class repo (acr c) # map (\<lambda>c. get_class repo (acr c)) cs]\<rparr>"]
    show ?thesis by (simp add: finish_frame)
  qed
qed

lemma update_semesters_alone_eq:
  "update_semesters_alone repo s =
     s\<lparr>semesters := map (\<lambda>sem. map (\<lambda>c. get_class repo (acr c)) (buttons sem))
                       (butlast (builderRows s))\<rparr>"
  by (simp add: update_semesters_alone_def finish_semesters_loop map_butlast)

lemma update_semesters_alone_grid:
  "semesters (update_semesters_alone repo s)
     = map (\<lambda>sem. map (\<lambda>c. get_class repo (acr c)) (buttons sem)) (butlast (builderRows s))
   \<and> (builder_shape s \<longrightarrow>
        int (length (semesters (update_semesters_alone repo s)))
          = columns (update_semesters_alone repo s)
        \<and> builder_shape (update_semesters_alone repo s))
   \<and> save_schedule stringify (update_semesters_alone repo s)
       = \<lparr>data = stringify (semesters (update_semesters_alone repo s)),
          filename = ''schedule.json'', type = ''json''\<rparr>"
proof (intro conjI impI)
  show "semesters (update_semesters_alone repo s)
     = map (\<lambda>sem. map (\<lambda>c. get_class repo (acr c)) (buttons sem)) (butlast (builderRows s))"
    by (simp add: update_semesters_alone_eq)
  assume b: "builder_shape s"
  then have "1 \<le> columns s" "int (length (builderRows s)) = columns s + 1"
    by (simp_all add: builder_shape_def)
  then have "int (length (builderRows s) - 1) = columns s"
    by arith
  then show "int (length (semesters (update_semesters_alone repo s)))
      = columns (update_semesters_alone repo s)"
    by (simp add: update_semesters_alone_eq)
  from b show "builder_shape (update_semesters_alone repo s)"
    by (simp add: builder_shape_def update_semesters_alone_eq)
next
  show "save_schedule stringify (update_semesters_alone repo s)
       = \<lparr>data = stringify (semesters (update_semesters_alone repo s)),
          filename = ''schedule.json'', type = ''json''\<rparr>"
    by (simp add: save_schedule_def)
qed

text \<open>The steps of the two runs in which a second call starts before the first has ended.\<close>

lemma ready_repo_fields:
  "get_class ready_repo a = demo_class" "selected ready_repo = [demo_class]"
  "wait_ready (ready ready_repo) 0 = Some 0"
  by (simp_all add: ready_repo_def wait_ready.simps)

lemma drop_pending_eq:
  "drop_pending = demo_builder
     \<lparr>suspended := [\<lparr>rest = tl (builderRows demo_builder), sem_arr = [],
                      awaited = demo_class, later = []\<rparr>]\<rparr>"
  by (simp add: drop_pending_def update_semesters_def demo_builder_def ready_repo_fields)

lemma header_changed_eq:
  "header_changed =
     \<lparr>columns = 2,
      builderHeader = [''Semester 1'', ''Semester 2'', ''Selected Classes''],
      builderRows =
        [\<lparr>td_id = ''builderNode0'', span_text = ''No classes selected'', buttons = []\<rparr>,
         \<lparr>td_id = ''builderNode1'', span_text = ''No classes selected'', buttons = []\<rparr>,
         \<lparr>td_id = ''builderNode2'', span_text = [],
           buttons = [\<lparr>button_text = ''Calculus I'', button_id = ''builderMATH-101A'',
                       acr = ''MATH-101A'', name = ''Calculus I''\<rparr>]\<rparr>],
      semesters = [[], []],
      suspended =
        [\<lparr>rest = tl (builderRows demo_builder), sem_arr = [], awaited = demo_class,
          later = []\<rparr>,
         \<lparr>rest = [], sem_arr = [], awaited = demo_class, later = []\<rparr>]\<rparr>"
proof -
  let ?hdr = "[''Semester 1'', ''Semester 2'', ''Selected Classes'']"
  let ?cells = "[\<lparr>td_id = ''builderNode0'', span_text = ''No classes selected'', buttons = []\<rparr>,
       \<lparr>td_id = ''builderNode1'', span_text = ''No classes selected'', buttons = []\<rparr>,
       \<lparr>td_id = ''builderNode2'', span_text = ''No classes selected'', buttons = []\<rparr>]"
  let ?a = "\<lparr>rest = tl (builderRows demo_builder), sem_arr = [], awaited = demo_class,
          later = []\<rparr>"
  let ?s2 = "\<lparr>columns = 2, builderHeader = ?hdr, builderRows = ?cells, semesters = [],
        suspended = [?a]\<rparr>"
  let ?s3 = "\<lparr>columns = 2, builderHeader = ?hdr,
        builderRows =
          [\<lparr>td_id = ''builderNode0'', span_text = ''No classes selected'', buttons = []\<rparr>,
           \<lparr>td_id = ''builderNode1'', span_text = ''No classes selected'', buttons = []\<rparr>,
           \<lparr>td_id = ''builderNode2'', span_text = [],
             buttons = [\<lparr>button_text = ''Calculus I'', button_id = ''builderMATH-101A'',
                         acr = ''MATH-101A'', name = ''Calculus I''\<rparr>]\<rparr>],
        semesters = [], suspended = [?a]\<rparr>"
  have h: "header_loop 2 1 [] = ?hdr"
    by (simp add: header_loop.simps show_int_digits)
  have e: "entries_loop 2 0 [] = ?cells"
    by (simp add: entries_loop.simps show_int_digits)
  have s1: "drop_pending\<lparr>columns := 2, builderHeader := ?hdr, builderRows := ?cells\<rparr> = ?s2"
    by (simp add: drop_pending_eq demo_builder_def)
  have a: "add_classes (selected ready_repo) ?s2 = Inr ?s3"
    by (simp add: ready_repo_fields demo_class_def add_class_def)
  have u: "update_semesters ready_repo ?s3
      = ?s3\<lparr>semesters := [[], []],
            suspended := [?a, \<lparr>rest = [], sem_arr = [], awaited = demo_class, later = []\<rparr>]\<rparr>"
    by (simp add: update_semesters_def ready_repo_fields)
  have c: "columns drop_pending = 2"
    by (simp add: drop_pending_eq demo_builder_def)
  have f: "fill_entries ready_repo (drop_pending\<lparr>columns := 2, builderHeader := ?hdr\<rparr>)
      = (Fulfilled, ?s3\<lparr>semesters := [[], []],
            suspended := [?a, \<lparr>rest = [], sem_arr = [], awaited = demo_class, later = []\<rparr>]\<rparr>)"
    by (simp add: fill_entries_def ready_repo_fields(3) e s1 a u)
  show ?thesis
    by (simp add: header_changed_def update_header_def h f)
qed

lemma first_resumed_eq:
  "first_resumed = header_changed
     \<lparr>semesters := [[], [], [demo_class], []],
      suspended := [\<lparr>rest = [], sem_arr = [], awaited = demo_class, later = []\<rparr>]\<rparr>"
  by (simp add: first_resumed_def header_changed_eq resume_def resume_frame_def
      demo_builder_def splice_from_def)

lemma both_ended_eq:
  "both_ended = header_changed\<lparr>semesters := [[], [], [demo_class], []], suspended := []\<rparr>"
  by (simp add: both_ended_def first_resumed_eq header_changed_eq resume_def resume_frame_def
      splice_from_def)

lemma twice_called_eq:
  "twice_called = demo_builder\<lparr>semesters := [[demo_class], [], [demo_class], []]\<rparr>"
proof -
  let ?a = "\<lparr>rest = tl (builderRows demo_builder), sem_arr = [], awaited = demo_class,
          later = []\<rparr>"
  have 1: "update_semesters ready_repo drop_pending = demo_builder\<lparr>suspended := [?a, ?a]\<rparr>"
    by (simp add: drop_pending_eq update_semesters_def demo_builder_def ready_repo_fields)
  have 2: "resume ready_repo 0 (demo_builder\<lparr>suspended := [?a, ?a]\<rparr>)
      = demo_builder\<lparr>semesters := [[demo_class], []], suspended := [?a]\<rparr>"
    by (simp add: resume_def resume_frame_def demo_builder_def splice_from_def)
  have 3: "resume ready_repo 0 (demo_builder\<lparr>semesters := [[demo_class], []], suspended := [?a]\<rparr>)
      = demo_builder\<lparr>semesters := [[demo_class], [], [demo_class], []]\<rparr>"
    by (simp add: resume_def resume_frame_def demo_builder_def splice_from_def)
  show ?thesis
    by (simp add: twice_called_def 1 2 3)
qed

text \<open>
  C5. The claim does not hold after every call: a call of \<open>update_semesters\<close> that starts
  while another one is stopped at a lookup replaces the array the first one is filling,
  and both then push into the new one. With Calculus I in Semester 1 of two semesters
  and the call made by the drop still stopped, a change of the number of semesters to 2
  rebuilds the entry row, puts the class back into the bank and calls
  \<open>update_semesters\<close> again; once both calls have ended, \<open>semesters\<close> has four arrays
  for two columns and holds a class where every semester cell is empty, and
  \<open>save_schedule\<close> serializes that array. Two calls over the same cells leave four
  arrays as well. (A call that nothing interrupts leaves what the claim says:
  \<open>update_semesters_alone_grid\<close>.)
\<close>

theorem update_semesters_overlap:
  "suspended both_ended = []
   \<and> columns both_ended = 2
   \<and> map buttons (butlast (builderRows both_ended)) = [[], []]
   \<and> semesters both_ended = [[], [], [demo_class], []]
   \<and> int (length (semesters both_ended)) = 4
   \<and> semesters (update_semesters_alone ready_repo both_ended) = [[], []]
   \<and> save_schedule stringify both_ended
       = \<lparr>data = stringify [[], [], [demo_class], []], filename = ''schedule.json'',
          type = ''json''\<rparr>
   \<and> suspended twice_called = []
   \<and> columns twice_called = 2
   \<and> semesters twice_called = [[demo_class], [], [demo_class], []]"
  by (simp add: both_ended_eq header_changed_eq twice_called_eq demo_builder_def
      update_semesters_alone_eq save_schedule_def ready_repo_fields)

section \<open>The sign-up page\<close>

text \<open>
  C9. Whatever the fields hold and whichever client-side check fails, a click sends
  exactly one request, the POST to /sign-up with the entered username, password and
  email; once the reply is there, the message shown is the success message or
  "An error occurred: " followed by the server's info, in place of the message of the
  client-side check; without a reply the message of the client-side check stays.
\<close>

theorem click_always_posts:
  "requests (click_handler u p c e resp) =
     [\<lparr>route = ''/sign-up'', http_method = ''POST'', body = Some (SignupBody u p e)\<rparr>]
   \<and> displayed (click_handler u p c e (Some r)) =
       Some (if account_created r then ''Your account has been created!''
             else ''An error occurred: '' @ info r)
   \<and> displayed (click_handler u p c e None) = Some (client_check u p c e)"
  by (cases resp) (simp_all add: click_handler_def makeRequest_def)

theorem click_always_posts_witness:
  "client_check ''bob'' ''pw'' ''pw2'' ''bob'' = ''The passwords do not match.''
   \<and> requests (click_handler ''bob'' ''pw'' ''pw2'' ''bob''
        (Some \<lparr>info = ''BAD USERNAME PASSWORD'', user_id = Num 0, account_created = False\<rparr>))
       = [\<lparr>route = ''/sign-up'', http_method = ''POST'',
           body = Some (SignupBody ''bob'' ''pw'' ''bob'')\<rparr>]
   \<and> displayed (click_handler ''bob'' ''pw'' ''pw2'' ''bob''
        (Some \<lparr>info = ''BAD USERNAME PASSWORD'', user_id = Num 0, account_created = False\<rparr>))
       = Some ''An error occurred: BAD USERNAME PASSWORD''
   \<and> requests (click_handler [] [] [] [] None)
       = [\<lparr>route = ''/sign-up'', http_method = ''POST'', body = Some (SignupBody [] [] [])\<rparr>]
   \<and> displayed (click_handler [] [] [] [] None) = Some ''All fields must be filled.''"
  using click_always_posts [of "''bob''" "''pw''" "''pw2''" "''bob''"
      "Some \<lparr>info = ''BAD USERNAME PASSWORD'', user_id = Num 0, account_created = False\<rparr>"
      "\<lparr>info = ''BAD USERNAME PASSWORD'', user_id = Num 0, account_created = False\<rparr>"]
    click_always_posts [of "[]" "[]" "[]" "[]" None]
  by (simp add: client_check_def)

lemma client_check_passes_iff:
  "client_check u p c e = ''Attempting to create account...'' \<longleftrightarrow>
     u \<noteq> [] \<and> p \<noteq> [] \<and> c \<noteq> [] \<and> e \<noteq> [] \<and> p = c
     \<and> CHR ''.'' \<in> set e \<and> CHR ''@'' \<in> set e \<and> 5 \<le> length u \<and> 6 \<le> length p"
  by (auto simp: client_check_def)

lemma client_check_length_iff:
  "client_check u p c e = ''Username > 5, Password > 6.'' \<longleftrightarrow>
     u \<noteq> [] \<and> p \<noteq> [] \<and> c \<noteq> [] \<and> e \<noteq> [] \<and> p = c
     \<and> CHR ''.'' \<in> set e \<and> CHR ''@'' \<in> set e \<and> (length u < 5 \<or> length p < 6)"
  by (auto simp: client_check_def)

text \<open>A collection filled by \<open>sign_up\<close> holds no username of five characters.\<close>

lemma short_username_not_stored:
  assumes "\<forall>a\<in>set (accounts db). 5 < length (username a)" and "length u = 5"
  shows "\<forall>a\<in>set (accounts db). username a \<noteq> u"
  using assms by auto

text \<open>
  C10. The client's length check rejects, among fields that pass its other checks,
  exactly usernames shorter than 5 and passwords shorter than 6; the server's
  \<open>valid_user_pass_combo\<close> asks for a username and a password longer than 5. So for a
  username of exactly five characters, a password of at least six, an equal
  confirmation, an email with "." and "@", and a username that is not registered yet
  (as none of five characters is in a collection filled by \<open>sign_up\<close>), the client-side
  check passes and the server rejects the sign-up with "BAD USERNAME PASSWORD", leaving
  the database as it was.
\<close>

theorem thresholds_disagree:
  assumes "length u = 5" and "6 \<le> length p" and "c = p"
    and "CHR ''.'' \<in> set e" and "CHR ''@'' \<in> set e"
    and "\<forall>a\<in>set (accounts db). username a \<noteq> u"
  shows "client_check u p c e = ''Attempting to create account...''
    \<and> \<not> valid_user_pass_combo u p
    \<and> sign_up K env db u p e =
        (\<lparr>info = ''BAD USERNAME PASSWORD'', user_id = Num 0, account_created = False\<rparr>, db)
    \<and> (client_check u' p' c' e' = ''Username > 5, Password > 6.'' \<longleftrightarrow>
         u' \<noteq> [] \<and> p' \<noteq> [] \<and> c' \<noteq> [] \<and> e' \<noteq> [] \<and> p' = c'
         \<and> CHR ''.'' \<in> set e' \<and> CHR ''@'' \<in> set e' \<and> (length u' < 5 \<or> length p' < 6))
    \<and> (valid_user_pass_combo u' p' \<longleftrightarrow> 5 < length u' \<and> 5 < length p')"
proof -
  from assms(1,2,4) have ne: "u \<noteq> []" "p \<noteq> []" "e \<noteq> []" by auto
  with assms have 1: "client_check u p c e = ''Attempting to create account...''"
    by (simp add: client_check_passes_iff)
  from assms(1) have 2: "\<not> valid_user_pass_combo u p"
    by (simp add: valid_user_pass_combo_def)
  from assms(6) have 3: "\<not> username_exists db u"
    by (simp add: username_exists_iff)
  from 2 have "username_exists db u \<or> \<not> valid_user_pass_combo u p \<or> email_exists db e"
    by simp
  from sign_up_rejected [OF this, of K env] 2 3
  have 4: "sign_up K env db u p e =
        (\<lparr>info = ''BAD USERNAME PASSWORD'', user_id = Num 0, account_created = False\<rparr>, db)"
    by simp
  have 5: "valid_user_pass_combo u' p' \<longleftrightarrow> 5 < length u' \<and> 5 < length p'"
    by (simp add: valid_user_pass_combo_def)
  from 1 2 4 5 client_check_length_iff [of u' p' c' e'] show ?thesis
    by (simp only: simp_thms)
qed

theorem thresholds_disagree_witness:
  "length ''alice'' = 5 \<and> 6 \<le> length ''secret''
   \<and> CHR ''.'' \<in> set ''alice@ohlone.edu'' \<and> CHR ''@'' \<in> set ''alice@ohlone.edu''
   \<and> client_check ''alice'' ''secret'' ''secret'' ''alice@ohlone.edu''
       = ''Attempting to create account...''
   \<and> \<not> valid_user_pass_combo ''alice'' ''secret''
   \<and> sign_up demo_pbkdf2 demo_env account_db ''alice'' ''secret'' ''alice@ohlone.edu''
       = (\<lparr>info = ''BAD USERNAME PASSWORD'', user_id = Num 0, account_created = False\<rparr>,
          account_db)"
proof -
  have h: "length ''alice'' = 5" "6 \<le> length ''secret''" "''secret'' = ''secret''"
    "CHR ''.'' \<in> set ''alice@ohlone.edu''" "CHR ''@'' \<in> set ''alice@ohlone.edu''"
    "\<forall>a\<in>set (accounts account_db). username a \<noteq> ''alice''"
    by (simp_all add: account_db_def demo_account_def)
  from thresholds_disagree [OF h, of demo_pbkdf2 demo_env] h show ?thesis
    by simp
qed

end
